theory Spec2Isabelle
  imports
    Complex_Main
    "HOL-Library.Word"
    "HOL-Library.Multiset"
    "HOL-Library.Char_ord"
    "HOL-Library.List_Lexorder"
begin

unbundle bit_operations_syntax

section \<open>Data model (types.go)\<close>

text \<open>
  Go strings are byte sequences and are modelled as \<^typ>\<open>string\<close>; the empty string is
  \<open>[]\<close>. Go's \<open>int\<close> is \<^typ>\<open>int\<close>. A slice is a list; a nil slice and an empty slice
  are both \<open>[]\<close>. The element type \<open>float32\<close> is the type parameter \<open>'f\<close>: the code
  under study stores and copies such values and only \<open>cosineSimilarity\<close> computes with
  them. Values of \<open>interface{}\<close> and of \<open>time.Time\<close> are opaque to the package.
\<close>

type_synonym byte = "8 word"

typedecl iface
typedecl Time

record 'f Entity =
  Name :: string
  Type :: string
  Confidence :: 'f
  Start :: int
  End :: int

record 'f Link =
  TargetID :: string
  Type :: string
  Weight :: 'f
  Metadata :: "string \<rightharpoonup> iface"

record 'f NodeMeta =
  Source :: string
  CreatedAt :: "Time option"
  UpdatedAt :: "Time option"
  Confidence :: 'f
  Importance :: 'f
  AccessCount :: int
  Custom :: "string \<rightharpoonup> iface"

record SchemaInfo =
  Version :: string
  EmbeddingModel :: string
  EmbeddingDim :: int
  Features :: "string list"

record SecurityInfo =
  Integrity :: string
  Encryption :: string
  KeyID :: string

record FileMeta =
  Title :: string
  Description :: string
  Author :: string
  License :: string
  Tags :: "string list"
  Custom :: "string \<rightharpoonup> iface"

record 'f MemoryNode =
  ID :: string
  Content :: string
  Embedding :: "'f list"
  Tags :: "string list"
  Entities :: "'f Entity list"
  Links :: "'f Link list"
  Metadata :: "'f NodeMeta"
  Children :: "string list"
  ParentID :: string

record EngramHeader =
  Version :: string
  Created :: string
  Modified :: string
  NodeCount :: int
  Schema :: SchemaInfo
  Security :: SecurityInfo
  Metadata :: FileMeta

record 'f EngramFile =
  Header :: EngramHeader
  Nodes :: "'f MemoryNode list"

section \<open>Errors\<close>

text \<open>
  Error values. \<open>lib_error\<close> are the errors that come from outside the package
  (\<open>io.EOF\<close>, \<open>io.ErrUnexpectedEOF\<close>, and any other error of the serializer or the
  operating system); \<open>ErrInvalidMagic\<close> and \<open>ErrIntegrityFailed\<close> are the package's
  two sentinel values; \<open>Errorf msg err\<close> is \<open>fmt.Errorf("msg: %w", err)\<close>.
\<close>

datatype lib_error = EOF | ErrUnexpectedEOF | LibError string

datatype error =
    ErrInvalidMagic
  | ErrIntegrityFailed
  | External lib_error
  | Errorf string error

text \<open>\<open>errors.Is\<close>: the error itself or one it wraps is the target.\<close>

fun errors_Is :: "error \<Rightarrow> error \<Rightarrow> bool" where
  "errors_Is (Errorf msg err) target = (Errorf msg err = target \<or> errors_Is err target)"
| "errors_Is err target = (err = target)"

section \<open>External packages\<close>

text \<open>
  The package calls \<open>msgpack.Marshal\<close> on a node slice and on a header,
  \<open>(*msgpack.Decoder).Decode\<close> into a header, a node slice and a single node, and
  \<open>sha256.Sum256\<close>. None of them is code of this repository, so they are parameters of
  the model. A decoder reads one value from the front of the bytes its reader still
  holds: it is given those bytes and returns the value together with the bytes it left
  unread.
\<close>

record 'f extern =
  Marshal_nodes :: "'f MemoryNode list \<Rightarrow> lib_error + byte list"
  Marshal_header :: "EngramHeader \<Rightarrow> lib_error + byte list"
  Decode_header :: "byte list \<Rightarrow> lib_error + EngramHeader \<times> byte list"
  Decode_nodes :: "byte list \<Rightarrow> lib_error + 'f MemoryNode list \<times> byte list"
  Decode_node :: "byte list \<Rightarrow> lib_error + 'f MemoryNode \<times> byte list"
  Sum256 :: "byte list \<Rightarrow> byte list"

text \<open>\<open>hex.EncodeToString\<close>: two lower-case digits per byte.\<close>

definition hextable :: string where
  "hextable = ''0123456789abcdef''"

definition EncodeToString :: "byte list \<Rightarrow> string" where
  "EncodeToString src =
     concat (map (\<lambda>v. [hextable ! unat (drop_bit 4 v), hextable ! unat (v AND 0x0f)]) src)"

section \<open>The codec (Encode, Decode, VerifyIntegrity, StreamReader)\<close>

definition MagicBytes :: "byte list" where
  "MagicBytes = [0x45, 0x4E, 0x47, 0x52, 0x41, 0x4D]"

text \<open>
  \<open>Decode\<close>. \<open>reader.Len()\<close> is the number of bytes the header decoder left unread.
\<close>

definition Decode :: "'f extern \<Rightarrow> byte list \<Rightarrow> error + 'f EngramFile" where
  "Decode ex data =
     (if length data < 6 \<or> take 6 data \<noteq> MagicBytes then Inl ErrInvalidMagic
      else case Decode_header ex (drop 6 data) of
        Inl err \<Rightarrow> Inl (Errorf ''failed to decode header'' (External err))
      | Inr (header, unread) \<Rightarrow>
          let payloadStart = 6 + (int (length data) - 6 - int (length unread));
              payloadBytes = drop (nat payloadStart) data
          in if Integrity (Security header) \<noteq> []
                \<and> EncodeToString (Sum256 ex payloadBytes) \<noteq> Integrity (Security header)
             then Inl ErrIntegrityFailed
             else case Decode_nodes ex payloadBytes of
               Inl err \<Rightarrow> Inl (Errorf ''failed to decode nodes'' (External err))
             | Inr (nodes, _) \<Rightarrow> Inr \<lparr>Header = header, Nodes = nodes\<rparr>)"

text \<open>
  \<open>Encode\<close>. The parameter \<open>now\<close> is \<open>time.Now().UTC().Format(time.RFC3339)\<close>.
\<close>

definition Encode :: "'f extern \<Rightarrow> string \<Rightarrow> 'f EngramFile \<Rightarrow> error + byte list" where
  "Encode ex now file =
     (case Marshal_nodes ex (Nodes file) of
        Inl err \<Rightarrow> Inl (Errorf ''failed to encode nodes'' (External err))
      | Inr payloadBytes \<Rightarrow>
          let integrity = EncodeToString (Sum256 ex payloadBytes);
              header = Header file;
              header = header\<lparr>NodeCount := int (length (Nodes file))\<rparr>;
              header = header\<lparr>Modified := now\<rparr>;
              header = (if Created header = [] then header\<lparr>Created := Modified header\<rparr> else header);
              header = (if EngramHeader.Version header = []
                        then header\<lparr>EngramHeader.Version := ''1.0''\<rparr> else header);
              header = header\<lparr>Security := (Security header)\<lparr>Integrity := integrity\<rparr>\<rparr>
          in case Marshal_header ex header of
               Inl err \<Rightarrow> Inl (Errorf ''failed to encode header'' (External err))
             | Inr headerBytes \<Rightarrow> Inr (MagicBytes @ headerBytes @ payloadBytes))"

text \<open>
  \<open>ReadFile\<close> and \<open>VerifyIntegrity\<close>. The parameter \<open>fs\<close> is \<open>os.ReadFile\<close>: the
  content of the file at a path, or the error of reading it.
\<close>

definition ReadFile :: "'f extern \<Rightarrow> (string \<Rightarrow> lib_error + byte list) \<Rightarrow> string \<Rightarrow> error + 'f EngramFile" where
  "ReadFile ex fs path =
     (case fs path of
        Inl err \<Rightarrow> Inl (Errorf ''failed to read file'' (External err))
      | Inr data \<Rightarrow> Decode ex data)"

definition VerifyIntegrity :: "'f extern \<Rightarrow> (string \<Rightarrow> lib_error + byte list) \<Rightarrow> string \<Rightarrow> bool \<times> error option" where
  "VerifyIntegrity ex fs path =
     (case ReadFile ex fs path of
        Inl err \<Rightarrow> if errors_Is err ErrIntegrityFailed then (False, None) else (False, Some err)
      | Inr _ \<Rightarrow> (True, None))"

text \<open>
  The streaming reader. The source is given by the bytes it delivers; \<open>decoder\<close> holds
  the bytes the decoder has not consumed yet (the fields \<open>reader\<close> and \<open>decoder\<close> of
  the Go struct share that one stream).
\<close>

record StreamReader =
  decoder :: "byte list"
  Header :: EngramHeader
  count :: int
  index :: int

definition NewStreamReader :: "'f extern \<Rightarrow> byte list \<Rightarrow> error + StreamReader" where
  "NewStreamReader ex r =
     (if length r < 6
      then Inl (Errorf ''failed to read magic bytes''
                  (External (if r = [] then EOF else ErrUnexpectedEOF)))
      else if take 6 r \<noteq> MagicBytes then Inl ErrInvalidMagic
      else case Decode_header ex (drop 6 r) of
        Inl err \<Rightarrow> Inl (Errorf ''failed to decode header'' (External err))
      | Inr (header, unread) \<Rightarrow>
          Inr \<lparr>decoder = unread, Header = header, count = NodeCount header, index = 0\<rparr>)"

text \<open>
  \<open>Next\<close> returns the record (or nil) and the reader's new state, or an error.
\<close>

definition Next :: "'f extern \<Rightarrow> StreamReader \<Rightarrow> error + 'f MemoryNode option \<times> StreamReader" where
  "Next ex sr =
     (if StreamReader.index sr \<ge> StreamReader.count sr then Inr (None, sr)
      else case Decode_node ex (decoder sr) of
        Inl err \<Rightarrow>
          if err = EOF then Inr (None, sr)
          else Inl (Errorf ''failed to decode node'' (External err))
      | Inr (node, unread) \<Rightarrow>
          Inr (Some node, sr\<lparr>decoder := unread, index := StreamReader.index sr + 1\<rparr>))"

text \<open>
  The consumer's loop of the README: call \<open>Next\<close> until it returns nil or an error,
  collecting the records.
\<close>

function ReadAll :: "'f extern \<Rightarrow> StreamReader \<Rightarrow> error + 'f MemoryNode list" where
  "ReadAll ex sr =
     (case Next ex sr of
        Inl err \<Rightarrow> Inl err
      | Inr (None, _) \<Rightarrow> Inr []
      | Inr (Some node, sr') \<Rightarrow>
          (case ReadAll ex sr' of Inl err \<Rightarrow> Inl err | Inr rest \<Rightarrow> Inr (node # rest)))"
  by pat_completeness auto
termination
proof (relation "measure (\<lambda>(ex, sr). nat (StreamReader.count sr - StreamReader.index sr))")
  show "wf (measure (\<lambda>(ex :: 'f extern, sr :: StreamReader).
              nat (StreamReader.count sr - StreamReader.index sr)))"
    by simp
next
  fix ex :: "'f extern" and sr sr' :: "StreamReader" and x2 b and node :: "'f MemoryNode"
    and r :: "'f MemoryNode option \<times> StreamReader"
  assume "Next ex sr = Inr r" "(x2, sr') = r" "x2 = Some node"
  then have "Next ex sr = Inr (Some node, sr')" by simp
  then have "StreamReader.index sr < StreamReader.count sr
             \<and> StreamReader.count sr' = StreamReader.count sr
             \<and> StreamReader.index sr' = StreamReader.index sr + 1"
    by (auto simp: Next_def split: if_splits sum.splits prod.splits)
  then show "((ex, sr'), (ex, sr))
      \<in> measure (\<lambda>(ex, sr). nat (StreamReader.count sr - StreamReader.index sr))"
    by simp
qed

section \<open>The in-memory index (tree.go)\<close>

text \<open>
  A \<open>*MemoryNode\<close> held by the index is always \<open>&nodes[i]\<close>, a pointer into the
  slice the tree was built from; it is modelled as the position \<open>i\<close>. A Go map is a
  partial function; reading a missing key of a map of slices gives the nil slice.
\<close>

record 'f MemoryTree =
  nodes :: "'f MemoryNode list"
  byID :: "string \<rightharpoonup> nat"
  byTag :: "string \<rightharpoonup> nat list"
  children :: "string \<rightharpoonup> nat list"

definition slice_at :: "('k \<rightharpoonup> 'v list) \<Rightarrow> 'k \<Rightarrow> 'v list" where
  "slice_at m k = (case m k of None \<Rightarrow> [] | Some ps \<Rightarrow> ps)"

text \<open>The inner loop \<open>for _, tag := range node.Tags\<close> of \<open>NewMemoryTree\<close>.\<close>

fun index_tags :: "(string \<rightharpoonup> nat list) \<Rightarrow> nat \<Rightarrow> string list \<Rightarrow> (string \<rightharpoonup> nat list)" where
  "index_tags m i [] = m"
| "index_tags m i (tag # tags) = index_tags (m(tag \<mapsto> slice_at m tag @ [i])) i tags"

text \<open>One iteration of \<open>for i := range nodes\<close>.\<close>

definition index_node :: "'f MemoryTree \<Rightarrow> nat \<Rightarrow> 'f MemoryTree" where
  "index_node t i =
     (let node = nodes t ! i;
          t1 = t\<lparr>byID := (byID t)(ID node \<mapsto> i)\<rparr>;
          t2 = t1\<lparr>byTag := index_tags (byTag t1) i (MemoryNode.Tags node)\<rparr>
      in if ParentID node \<noteq> []
         then t2\<lparr>children := (children t2)(ParentID node \<mapsto> slice_at (children t2) (ParentID node) @ [i])\<rparr>
         else t2)"

definition NewMemoryTree :: "'f MemoryNode list \<Rightarrow> 'f MemoryTree" where
  "NewMemoryTree ns =
     fold (\<lambda>i t. index_node t i) [0..<length ns]
       \<lparr>nodes = ns, byID = Map.empty, byTag = Map.empty, children = Map.empty\<rparr>"

definition Get :: "'f MemoryTree \<Rightarrow> string \<Rightarrow> nat option" where
  "Get t nid = byID t nid"

definition GetAll :: "'f MemoryTree \<Rightarrow> 'f MemoryNode list" where
  "GetAll t = nodes t"

definition Count :: "'f MemoryTree \<Rightarrow> int" where
  "Count t = int (length (nodes t))"

definition GetByTag :: "'f MemoryTree \<Rightarrow> string \<Rightarrow> nat list" where
  "GetByTag t tag = slice_at (byTag t) tag"

text \<open>
  \<open>GetTags\<close> collects the keys of \<open>byTag\<close> in the map's iteration order and sorts them
  with \<open>sort.Strings\<close> (bytewise lexicographic order, the order of \<^typ>\<open>string\<close> here);
  the keys of a map are distinct, so the result is the sorted list of the key set.
\<close>

definition GetTags :: "'f MemoryTree \<Rightarrow> string list" where
  "GetTags t = sorted_list_of_set (dom (byTag t))"

definition GetChildren :: "'f MemoryTree \<Rightarrow> string \<Rightarrow> nat list" where
  "GetChildren t parentID = slice_at (children t) parentID"

definition GetRoots :: "'f MemoryTree \<Rightarrow> nat list" where
  "GetRoots t = filter (\<lambda>i. ParentID (nodes t ! i) = []) [0..<length (nodes t)]"

subsection \<open>Cosine similarity and semantic search\<close>

text \<open>
  The arithmetic of \<open>float32\<close> and \<open>float64\<close> is a parameter: \<open>'f\<close> is \<open>float32\<close>,
  \<open>'d\<close> is \<open>float64\<close>, and a \<open>float_ops\<close> gives the conversions, the operations
  \<open>+\<close>, \<open>*\<close>, \<open>/\<close> and \<open>math.Sqrt\<close> on \<open>float64\<close>, the test \<open>x == 0\<close> on
  \<open>float64\<close>, the comparison \<open>x > y\<close> on \<open>float32\<close>, the zero value of a \<open>float64\<close>
  variable and the constant \<open>0\<close> as a \<open>float32\<close>.
\<close>

record ('f, 'd) float_ops =
  float64 :: "'f \<Rightarrow> 'd"
  float32 :: "'d \<Rightarrow> 'f"
  fadd :: "'d \<Rightarrow> 'd \<Rightarrow> 'd"
  fmul :: "'d \<Rightarrow> 'd \<Rightarrow> 'd"
  fdiv :: "'d \<Rightarrow> 'd \<Rightarrow> 'd"
  fsqrt :: "'d \<Rightarrow> 'd"
  is_zero :: "'d \<Rightarrow> bool"
  greater :: "'f \<Rightarrow> 'f \<Rightarrow> bool"
  zero64 :: 'd
  zero32 :: 'f

text \<open>One iteration of the loop of \<open>cosineSimilarity\<close> on the three accumulators.\<close>

definition cosine_step :: "('f, 'd) float_ops \<Rightarrow> 'f list \<Rightarrow> 'f list \<Rightarrow> nat \<Rightarrow> 'd \<times> 'd \<times> 'd \<Rightarrow> 'd \<times> 'd \<times> 'd" where
  "cosine_step F a b i acc =
     (case acc of (dotProduct, normA, normB) \<Rightarrow>
        (fadd F dotProduct (fmul F (float64 F (a ! i)) (float64 F (b ! i))),
         fadd F normA (fmul F (float64 F (a ! i)) (float64 F (a ! i))),
         fadd F normB (fmul F (float64 F (b ! i)) (float64 F (b ! i)))))"

definition cosineSimilarity :: "('f, 'd) float_ops \<Rightarrow> 'f list \<Rightarrow> 'f list \<Rightarrow> 'f" where
  "cosineSimilarity F a b =
     (if length a \<noteq> length b \<or> length a = 0 then zero32 F
      else case fold (cosine_step F a b) [0..<length a] (zero64 F, zero64 F, zero64 F) of
        (dotProduct, normA, normB) \<Rightarrow>
          if is_zero F normA \<or> is_zero F normB then zero32 F
          else float32 F (fdiv F dotProduct (fmul F (fsqrt F normA) (fsqrt F normB))))"

text \<open>
  The quantities the specification names: the dot product and the squared norm of
  vectors, accumulated left to right in \<open>float64\<close> from the zero value.
\<close>

definition dot :: "('f, 'd) float_ops \<Rightarrow> 'f list \<Rightarrow> 'f list \<Rightarrow> 'd" where
  "dot F a b = foldl (\<lambda>acc (x, y). fadd F acc (fmul F (float64 F x) (float64 F y))) (zero64 F) (zip a b)"

definition sqnorm :: "('f, 'd) float_ops \<Rightarrow> 'f list \<Rightarrow> 'd" where
  "sqnorm F a = dot F a a"

record 'f SearchResult =
  Node :: nat
  Score :: 'f

text \<open>The scoring loop of \<open>Search\<close>, before the results are sorted.\<close>

definition Search_scan :: "('f, 'd) float_ops \<Rightarrow> 'f MemoryTree \<Rightarrow> 'f list \<Rightarrow> 'f SearchResult list" where
  "Search_scan F t queryEmbedding =
     fold (\<lambda>i results.
             if length (Embedding (nodes t ! i)) = 0 then results
             else results @ [\<lparr>Node = i,
                    Score = cosineSimilarity F queryEmbedding (Embedding (nodes t ! i))\<rparr>])
          [0..<length (nodes t)] []"

text \<open>
  \<open>sort.Slice\<close> belongs to Go's standard library, not to the repository. Its
  documentation promises that the slice is sorted by the given \<open>less\<close> function, says
  that the sort is not guaranteed to be stable, and requires \<open>less\<close> to be a transitive
  ordering (which \<open>>\<close> on floating-point numbers is not when a NaN is involved).
\<close>

definition transitive_ordering :: "('a \<Rightarrow> 'a \<Rightarrow> bool) \<Rightarrow> 'a set \<Rightarrow> bool" where
  "transitive_ordering lt S \<longleftrightarrow>
     (\<forall>x\<in>S. \<not> lt x x)
     \<and> (\<forall>x\<in>S. \<forall>y\<in>S. \<forall>z\<in>S. lt x y \<and> lt y z \<longrightarrow> lt x z)
     \<and> (\<forall>x\<in>S. \<forall>y\<in>S. \<forall>z\<in>S. \<not> lt x y \<and> \<not> lt y z \<longrightarrow> \<not> lt x z)"

text \<open>
  Since Go 1.19 \<open>sort.Slice(x, less)\<close> is \<open>pdqsort_func\<close> on the whole slice. What
  that function does to a slice of at most 13 elements is transcribed below, with the
  slice as a list and \<open>lt x y\<close> for \<open>less\<close> on the elements \<open>x\<close> and \<open>y\<close>.

  \<open>insertionSort_func\<close> exchanges each element in turn with its predecessor for as
  long as it is \<open>less\<close> than it. \<open>sift\<close> is that inner loop; the elements already
  placed are held in reverse, the nearest predecessor first.
\<close>

fun sift :: "('a \<Rightarrow> 'a \<Rightarrow> bool) \<Rightarrow> 'a \<Rightarrow> 'a list \<Rightarrow> 'a list" where
  "sift lt x [] = [x]"
| "sift lt x (y # before) = (if lt x y then y # sift lt x before else x # y # before)"

definition insertionSort_func :: "('a \<Rightarrow> 'a \<Rightarrow> bool) \<Rightarrow> 'a list \<Rightarrow> 'a list" where
  "insertionSort_func lt data = rev (fold (sift lt) data [])"

text \<open>
  \<open>choosePivot_func\<close> on a slice of 8 to 49 elements: the median of the elements at
  a quarter, a half and three quarters of the length, found by \<open>median_func\<close> with
  three calls of \<open>order2_func\<close>, which count the exchanges they make. The result is the
  index of the pivot and the count; a count of 0 is the hint that the slice may be
  sorted already.
\<close>

definition order2_func :: "('a \<Rightarrow> 'a \<Rightarrow> bool) \<Rightarrow> 'a list \<Rightarrow> nat \<Rightarrow> nat \<Rightarrow> nat \<Rightarrow> nat \<times> nat \<times> nat" where
  "order2_func lt data a b swaps =
     (if lt (data ! b) (data ! a) then (b, a, swaps + 1) else (a, b, swaps))"

definition median_func :: "('a \<Rightarrow> 'a \<Rightarrow> bool) \<Rightarrow> 'a list \<Rightarrow> nat \<Rightarrow> nat \<Rightarrow> nat \<Rightarrow> nat \<Rightarrow> nat \<times> nat" where
  "median_func lt data a b c swaps =
     (case order2_func lt data a b swaps of (a, b, swaps) \<Rightarrow>
      case order2_func lt data b c swaps of (b, c, swaps) \<Rightarrow>
      case order2_func lt data a b swaps of (a, b, swaps) \<Rightarrow> (b, swaps))"

definition choosePivot_func :: "('a \<Rightarrow> 'a \<Rightarrow> bool) \<Rightarrow> 'a list \<Rightarrow> nat \<times> nat" where
  "choosePivot_func lt data =
     (let l = length data in median_func lt data (l div 4 * 1) (l div 4 * 2) (l div 4 * 3) 0)"

text \<open>
  \<open>partialInsertionSort_func\<close> on a slice of fewer than 50 elements moves nothing: it
  reports whether no element is \<open>less\<close> than its predecessor.
\<close>

fun partialInsertionSort_func :: "('a \<Rightarrow> 'a \<Rightarrow> bool) \<Rightarrow> 'a list \<Rightarrow> bool" where
  "partialInsertionSort_func lt (x # y # data) = (\<not> lt y x \<and> partialInsertionSort_func lt (y # data))"
| "partialInsertionSort_func lt data = True"

text \<open>
  \<open>partition_func\<close> exchanges the pivot with the first element and then runs two
  indices towards each other over the others: the left one skips the elements \<open>less\<close>
  than the pivot, the right one those that are not, and the two elements they stop at
  are exchanged. \<open>partition_scan\<close> is that loop on the elements after the pivot; it
  returns the elements that end before the meeting point and those that end after it.
  At the end the pivot is exchanged with the last element before the meeting point.
  The result is the part before the pivot, the pivot and the part after it.
\<close>

function partition_scan :: "('a \<Rightarrow> 'a \<Rightarrow> bool) \<Rightarrow> 'a \<Rightarrow> 'a list \<Rightarrow> 'a list \<times> 'a list" where
  "partition_scan lt p data =
     (let left = takeWhile (\<lambda>y. lt y p) data;
          rest = dropWhile (\<lambda>y. lt y p) data;
          right = rev (takeWhile (\<lambda>y. \<not> lt y p) (rev rest));
          between = rev (dropWhile (\<lambda>y. \<not> lt y p) (rev rest))
      in if between = [] then (left, right)
         else case partition_scan lt p (butlast (tl between)) of
                (l, r) \<Rightarrow> (left @ [last between] @ l, r @ [hd between] @ right))"
  by pat_completeness auto
termination
proof (relation "measure (\<lambda>(lt, p, data). length data)", goal_cases)
  case 1
  show ?case by simp
next
  case (2 lt p data left rest right between)
  have "length between \<le> length rest"
    using 2 by (simp add: length_dropWhile_le order.trans [OF length_dropWhile_le])
  moreover have "length rest \<le> length data"
    using 2 by (simp add: length_dropWhile_le)
  moreover have "between \<noteq> []" using 2 by simp
  ultimately show ?case
    by (cases between) auto
qed

declare partition_scan.simps [simp del]

definition partition_func :: "('a \<Rightarrow> 'a \<Rightarrow> bool) \<Rightarrow> 'a list \<Rightarrow> nat \<Rightarrow> 'a list \<times> 'a \<times> 'a list" where
  "partition_func lt data pivot =
     (let data = data[0 := data ! pivot, pivot := data ! 0];
          p = hd data
      in case partition_scan lt p (tl data) of
           (l, r) \<Rightarrow> (if l = [] then [] else last l # butlast l, p, r))"

text \<open>
  \<open>pdqsort_func\<close> on a slice of at most 13 elements. Up to 12 elements it is the
  insertion sort. With 13 it chooses a pivot; if the hint says so and the slice is in
  order it stops; otherwise it partitions, and both parts, which have at most 12
  elements together, are sorted by the insertion sort.
\<close>

definition pdqsort_func :: "('a \<Rightarrow> 'a \<Rightarrow> bool) \<Rightarrow> 'a list \<Rightarrow> 'a list" where
  "pdqsort_func lt data =
     (if length data \<le> 12 then insertionSort_func lt data
      else case choosePivot_func lt data of
        (pivot, swaps) \<Rightarrow>
          if swaps = 0 \<and> partialInsertionSort_func lt data then data
          else case partition_func lt data pivot of
            (left, p, right) \<Rightarrow> insertionSort_func lt left @ [p] @ insertionSort_func lt right)"

text \<open>
  \<open>sort.Slice\<close>, as a relation between the slice before and after the call. Up to 13
  elements the outcome is the one \<open>pdqsort_func\<close> computes. For a longer slice only
  the documented contract is modelled: the outcome is some rearrangement of the slice,
  and when \<open>less\<close> is a transitive ordering of its elements no element is \<open>less\<close> than
  one before it.
\<close>

definition sort_Slice :: "('a \<Rightarrow> 'a \<Rightarrow> bool) \<Rightarrow> 'a list \<Rightarrow> 'a list \<Rightarrow> bool" where
  "sort_Slice lt xs ys \<longleftrightarrow>
     (if length xs \<le> 13 then ys = pdqsort_func lt xs
      else mset ys = mset xs
         \<and> (transitive_ordering lt (set xs) \<longrightarrow> sorted_wrt (\<lambda>x y. \<not> lt y x) ys))"

definition by_score :: "('f, 'd) float_ops \<Rightarrow> 'f SearchResult \<Rightarrow> 'f SearchResult \<Rightarrow> bool" where
  "by_score F x y = greater F (Score x) (Score y)"

definition limit_results :: "int \<Rightarrow> 'a list \<Rightarrow> 'a list" where
  "limit_results limit results =
     (if limit > 0 \<and> int (length results) > limit then take (nat limit) results else results)"

text \<open>
  \<open>Search\<close>, as a relation between the arguments and the slices the call may return.
\<close>

inductive Search :: "('f, 'd) float_ops \<Rightarrow> 'f MemoryTree \<Rightarrow> 'f list \<Rightarrow> int \<Rightarrow> 'f SearchResult list \<Rightarrow> bool" where
  Search_nil: "length queryEmbedding = 0 \<Longrightarrow> Search F t queryEmbedding limit []"
| Search_sorted:
    "length queryEmbedding \<noteq> 0 \<Longrightarrow>
     sort_Slice (by_score F) (Search_scan F t queryEmbedding) results \<Longrightarrow>
     Search F t queryEmbedding limit (limit_results limit results)"

text \<open>
  A stable sort, as the specification words the ranking: each element is placed before
  the first element that is not \<open>less\<close> than it is, so that elements neither of which
  is \<open>less\<close> than the other keep their order.
\<close>

fun stable_insert :: "('a \<Rightarrow> 'a \<Rightarrow> bool) \<Rightarrow> 'a \<Rightarrow> 'a list \<Rightarrow> 'a list" where
  "stable_insert lt x [] = [x]"
| "stable_insert lt x (y # ys) =
     (if lt y x then y # stable_insert lt x ys else x # y # ys)"

definition stable_sort :: "('a \<Rightarrow> 'a \<Rightarrow> bool) \<Rightarrow> 'a list \<Rightarrow> 'a list" where
  "stable_sort lt xs = foldr (stable_insert lt) xs []"

text \<open>Exact arithmetic on the reals, as one instance of \<open>float_ops\<close>.\<close>

definition exact_reals :: "(real, real) float_ops" where
  "exact_reals = \<lparr>float64 = (\<lambda>x. x), float32 = (\<lambda>x. x), fadd = (+), fmul = (*), fdiv = (/),
     fsqrt = sqrt, is_zero = (\<lambda>x. x = 0), greater = (\<lambda>x y. x > y), zero64 = 0, zero32 = 0\<rparr>"

text \<open>
  The same arithmetic with a NaN: every operation on a NaN gives NaN and every
  comparison with a NaN is false. Infinities are not represented: the square root of a
  negative number and a division by zero give NaN.
\<close>

datatype nan_real = Num real | NaN

instantiation nan_real :: zero
begin

definition zero_nan_real :: nan_real where
  "zero_nan_real = Num 0"

instance ..

end

fun nan_op :: "(real \<Rightarrow> real \<Rightarrow> real) \<Rightarrow> nan_real \<Rightarrow> nan_real \<Rightarrow> nan_real" where
  "nan_op f (Num a) (Num b) = Num (f a b)"
| "nan_op f x y = NaN"

fun nan_div :: "nan_real \<Rightarrow> nan_real \<Rightarrow> nan_real" where
  "nan_div (Num a) (Num b) = (if b = 0 then NaN else Num (a / b))"
| "nan_div x y = NaN"

fun nan_sqrt :: "nan_real \<Rightarrow> nan_real" where
  "nan_sqrt (Num a) = (if a < 0 then NaN else Num (sqrt a))"
| "nan_sqrt NaN = NaN"

fun nan_greater :: "nan_real \<Rightarrow> nan_real \<Rightarrow> bool" where
  "nan_greater (Num a) (Num b) = (a > b)"
| "nan_greater x y = False"

definition nan_reals :: "(nan_real, nan_real) float_ops" where
  "nan_reals = \<lparr>float64 = (\<lambda>x. x), float32 = (\<lambda>x. x),
     fadd = nan_op (+), fmul = nan_op (*), fdiv = nan_div, fsqrt = nan_sqrt,
     is_zero = (\<lambda>x. x = Num 0), greater = nan_greater, zero64 = Num 0, zero32 = Num 0\<rparr>"

text \<open>The tree after the first \<open>n\<close> iterations of the construction loop.\<close>

definition build :: "'f MemoryNode list \<Rightarrow> nat \<Rightarrow> 'f MemoryTree" where
  "build ns n = fold (\<lambda>i t. index_node t i) [0..<n]
       \<lparr>nodes = ns, byID = Map.empty, byTag = Map.empty, children = Map.empty\<rparr>"

section \<open>Zero values\<close>

text \<open>The Go zero value of each struct.\<close>

definition zero_NodeMeta :: "('f::zero) NodeMeta" where
  "zero_NodeMeta = \<lparr>Source = [], CreatedAt = None, UpdatedAt = None, Confidence = 0,
     Importance = 0, AccessCount = 0, Custom = Map.empty\<rparr>"

definition zero_MemoryNode :: "('f::zero) MemoryNode" where
  "zero_MemoryNode = \<lparr>ID = [], Content = [], Embedding = [], Tags = [], Entities = [],
     Links = [], Metadata = zero_NodeMeta, Children = [], ParentID = []\<rparr>"

definition zero_SchemaInfo :: SchemaInfo where
  "zero_SchemaInfo = \<lparr>SchemaInfo.Version = [], EmbeddingModel = [], EmbeddingDim = 0, Features = []\<rparr>"

definition zero_SecurityInfo :: SecurityInfo where
  "zero_SecurityInfo = \<lparr>Integrity = [], Encryption = [], KeyID = []\<rparr>"

definition zero_FileMeta :: FileMeta where
  "zero_FileMeta = \<lparr>Title = [], Description = [], Author = [], License = [], Tags = [],
     Custom = Map.empty\<rparr>"

definition zero_EngramHeader :: EngramHeader where
  "zero_EngramHeader = \<lparr>Version = [], Created = [], Modified = [], NodeCount = 0,
     Schema = zero_SchemaInfo, Security = zero_SecurityInfo, Metadata = zero_FileMeta\<rparr>"

section \<open>A reference serializer\<close>

text \<open>
  Modelled from the spec: the serializer and the digest are external packages, absent
  from the repository. The spec describes the serializer as a compact, schema-less,
  self-describing binary object encoding of map, array and scalar primitives
  (MessagePack) in which every field name is embedded per record and an empty optional
  field is omitted, with the wire names of section 6. The definitions below give that
  encoding for the values the package's tests use: strings, string arrays, non-negative
  integers and the structs built from them. A value outside this fragment (an
  embedding, an entity, a link, node or file metadata, a schema) is reported as
  unsupported. \<open>sample_Sum256\<close> is a 32-byte checksum standing in for SHA-256.
  These definitions serve only as a concrete instance of \<open>extern\<close> on which the
  theorems are exercised; every general theorem below holds for all serializers and
  all digest functions.
\<close>

definition byte_of_char :: "char \<Rightarrow> byte" where
  "byte_of_char c = of_nat (of_char c)"

definition char_of_byte :: "byte \<Rightarrow> char" where
  "char_of_byte b = char_of (unat b)"

definition be_bytes :: "nat \<Rightarrow> nat \<Rightarrow> byte list" where
  "be_bytes k v = map (\<lambda>i. of_nat (v div 256 ^ (k - 1 - i))) [0..<k]"

definition be_nat :: "byte list \<Rightarrow> nat" where
  "be_nat bs = foldl (\<lambda>acc b. acc * 256 + unat b) 0 bs"

definition mp_str :: "string \<Rightarrow> byte list" where
  "mp_str s =
     (let n = length s in
        (if n < 32 then [0xa0 + of_nat n]
         else if n < 256 then 0xd9 # be_bytes 1 n
         else if n < 65536 then 0xda # be_bytes 2 n
         else 0xdb # be_bytes 4 n) @ map byte_of_char s)"

definition mp_uint :: "nat \<Rightarrow> byte list" where
  "mp_uint n =
     (if n < 128 then [of_nat n]
      else if n < 256 then 0xcc # be_bytes 1 n
      else if n < 65536 then 0xcd # be_bytes 2 n
      else if n < 4294967296 then 0xce # be_bytes 4 n
      else 0xcf # be_bytes 8 n)"

definition mp_array :: "nat \<Rightarrow> byte list" where
  "mp_array n =
     (if n < 16 then [0x90 + of_nat n]
      else if n < 65536 then 0xdc # be_bytes 2 n
      else 0xdd # be_bytes 4 n)"

definition mp_strs :: "string list \<Rightarrow> byte list" where
  "mp_strs ss = mp_array (length ss) @ concat (map mp_str ss)"

definition mp_struct :: "(string \<times> byte list option) list \<Rightarrow> byte list" where
  "mp_struct fs =
     (let present = List.map_filter (\<lambda>(k, v). map_option (Pair k) v) fs
      in [0x80 + of_nat (length present)] @ concat (map (\<lambda>(k, v). mp_str k @ v) present))"

definition omit_str :: "string \<Rightarrow> byte list option" where
  "omit_str s = (if s = [] then None else Some (mp_str s))"

definition omit_strs :: "string list \<Rightarrow> byte list option" where
  "omit_strs ss = (if ss = [] then None else Some (mp_strs ss))"

definition mp_security :: "SecurityInfo \<Rightarrow> byte list" where
  "mp_security sec =
     mp_struct [(''integrity'', omit_str (Integrity sec)),
                (''encryption'', omit_str (Encryption sec)),
                (''keyId'', omit_str (KeyID sec))]"

definition sample_Marshal_header :: "EngramHeader \<Rightarrow> lib_error + byte list" where
  "sample_Marshal_header h =
     (if Schema h = zero_SchemaInfo \<and> EngramHeader.Metadata h = zero_FileMeta \<and> 0 \<le> NodeCount h
      then Inr (mp_struct
        [(''version'', Some (mp_str (EngramHeader.Version h))),
         (''created'', Some (mp_str (Created h))),
         (''modified'', Some (mp_str (Modified h))),
         (''nodeCount'', Some (mp_uint (nat (NodeCount h)))),
         (''security'', if Security h = zero_SecurityInfo then None
                        else Some (mp_security (Security h)))])
      else Inl (LibError ''unsupported value''))"

definition mp_node :: "('f::zero) MemoryNode \<Rightarrow> lib_error + byte list" where
  "mp_node n =
     (if Embedding n = [] \<and> Entities n = [] \<and> Links n = []
         \<and> MemoryNode.Metadata n = zero_NodeMeta
      then Inr (mp_struct
        [(''id'', Some (mp_str (ID n))),
         (''content'', Some (mp_str (Content n))),
         (''tags'', omit_strs (MemoryNode.Tags n)),
         (''children'', omit_strs (Children n)),
         (''parentId'', omit_str (ParentID n))])
      else Inl (LibError ''unsupported value''))"

fun mp_nodes :: "('f::zero) MemoryNode list \<Rightarrow> lib_error + byte list" where
  "mp_nodes [] = Inr []"
| "mp_nodes (n # ns) =
     (case mp_node n of
        Inl e \<Rightarrow> Inl e
      | Inr b \<Rightarrow> (case mp_nodes ns of Inl e \<Rightarrow> Inl e | Inr bs \<Rightarrow> Inr (b @ bs)))"

definition sample_Marshal_nodes :: "('f::zero) MemoryNode list \<Rightarrow> lib_error + byte list" where
  "sample_Marshal_nodes ns =
     (case mp_nodes ns of Inl e \<Rightarrow> Inl e | Inr bs \<Rightarrow> Inr (mp_array (length ns) @ bs))"

definition mid :: "lib_error \<Rightarrow> lib_error" where
  "mid e = (if e = EOF then ErrUnexpectedEOF else e)"

definition take_bytes :: "nat \<Rightarrow> byte list \<Rightarrow> lib_error + byte list \<times> byte list" where
  "take_bytes n bs = (if length bs < n then Inl ErrUnexpectedEOF else Inr (take n bs, drop n bs))"

definition dec_len :: "nat \<Rightarrow> byte list \<Rightarrow> lib_error + nat \<times> byte list" where
  "dec_len k bs = (case take_bytes k bs of Inl e \<Rightarrow> Inl e | Inr (lb, rest) \<Rightarrow> Inr (be_nat lb, rest))"

definition dec_str :: "byte list \<Rightarrow> lib_error + string \<times> byte list" where
  "dec_str bs =
     (case bs of
        [] \<Rightarrow> Inl EOF
      | c # rest \<Rightarrow>
          (case (if 0xa0 \<le> c \<and> c \<le> 0xbf then Inr (unat (c - 0xa0), rest)
                 else if c = 0xd9 then dec_len 1 rest
                 else if c = 0xda then dec_len 2 rest
                 else if c = 0xdb then dec_len 4 rest
                 else Inl (LibError ''invalid code decoding string length'')) of
             Inl e \<Rightarrow> Inl e
           | Inr (n, rest') \<Rightarrow>
               (case take_bytes n rest' of
                  Inl e \<Rightarrow> Inl e
                | Inr (sb, rest'') \<Rightarrow> Inr (map char_of_byte sb, rest''))))"

definition dec_uint :: "byte list \<Rightarrow> lib_error + nat \<times> byte list" where
  "dec_uint bs =
     (case bs of
        [] \<Rightarrow> Inl EOF
      | c # rest \<Rightarrow>
          if c < 0x80 then Inr (unat c, rest)
          else if c = 0xcc then dec_len 1 rest
          else if c = 0xcd then dec_len 2 rest
          else if c = 0xce then dec_len 4 rest
          else if c = 0xcf then dec_len 8 rest
          else Inl (LibError ''invalid code decoding int''))"

definition dec_array_len :: "byte list \<Rightarrow> lib_error + nat \<times> byte list" where
  "dec_array_len bs =
     (case bs of
        [] \<Rightarrow> Inl EOF
      | c # rest \<Rightarrow>
          if c = 0xc0 then Inr (0, rest)
          else if 0x90 \<le> c \<and> c \<le> 0x9f then Inr (unat (c - 0x90), rest)
          else if c = 0xdc then dec_len 2 rest
          else if c = 0xdd then dec_len 4 rest
          else Inl (LibError ''invalid code decoding array length''))"

definition dec_map_len :: "byte list \<Rightarrow> lib_error + nat \<times> byte list" where
  "dec_map_len bs =
     (case bs of
        [] \<Rightarrow> Inl EOF
      | c # rest \<Rightarrow>
          if 0x80 \<le> c \<and> c \<le> 0x8f then Inr (unat (c - 0x80), rest)
          else if c = 0xde then dec_len 2 rest
          else if c = 0xdf then dec_len 4 rest
          else Inl (LibError ''invalid code decoding map length''))"

fun dec_list :: "(byte list \<Rightarrow> lib_error + 'a \<times> byte list) \<Rightarrow> nat \<Rightarrow> byte list \<Rightarrow> lib_error + 'a list \<times> byte list" where
  "dec_list d 0 bs = Inr ([], bs)"
| "dec_list d (Suc n) bs =
     (case d bs of
        Inl e \<Rightarrow> Inl (mid e)
      | Inr (x, rest) \<Rightarrow>
          (case dec_list d n rest of Inl e \<Rightarrow> Inl e | Inr (xs, rest') \<Rightarrow> Inr (x # xs, rest')))"

definition dec_strs :: "byte list \<Rightarrow> lib_error + string list \<times> byte list" where
  "dec_strs bs =
     (case dec_array_len bs of Inl e \<Rightarrow> Inl e | Inr (n, rest) \<Rightarrow> dec_list dec_str n rest)"

definition set_from :: "(byte list \<Rightarrow> lib_error + 'a \<times> byte list) \<Rightarrow> ('a \<Rightarrow> 'b) \<Rightarrow> byte list \<Rightarrow> lib_error + 'b \<times> byte list" where
  "set_from d upd bs = (case d bs of Inl e \<Rightarrow> Inl e | Inr (x, rest) \<Rightarrow> Inr (upd x, rest))"

fun dec_fields :: "(string \<Rightarrow> 'a \<Rightarrow> byte list \<Rightarrow> lib_error + 'a \<times> byte list) \<Rightarrow> nat \<Rightarrow> 'a \<Rightarrow> byte list \<Rightarrow> lib_error + 'a \<times> byte list" where
  "dec_fields f 0 v bs = Inr (v, bs)"
| "dec_fields f (Suc n) v bs =
     (case dec_str bs of
        Inl e \<Rightarrow> Inl (mid e)
      | Inr (key, rest) \<Rightarrow>
          (case f key v rest of
             Inl e \<Rightarrow> Inl (mid e)
           | Inr (v', rest') \<Rightarrow> dec_fields f n v' rest'))"

definition dec_struct :: "(string \<Rightarrow> 'a \<Rightarrow> byte list \<Rightarrow> lib_error + 'a \<times> byte list) \<Rightarrow> 'a \<Rightarrow> byte list \<Rightarrow> lib_error + 'a \<times> byte list" where
  "dec_struct f zero bs =
     (case dec_map_len bs of Inl e \<Rightarrow> Inl e | Inr (n, rest) \<Rightarrow> dec_fields f n zero rest)"

definition security_field :: "string \<Rightarrow> SecurityInfo \<Rightarrow> byte list \<Rightarrow> lib_error + SecurityInfo \<times> byte list" where
  "security_field key sec =
     (if key = ''integrity'' then set_from dec_str (\<lambda>s. sec\<lparr>Integrity := s\<rparr>)
      else if key = ''encryption'' then set_from dec_str (\<lambda>s. sec\<lparr>Encryption := s\<rparr>)
      else if key = ''keyId'' then set_from dec_str (\<lambda>s. sec\<lparr>KeyID := s\<rparr>)
      else (\<lambda>bs. Inl (LibError ''unsupported field'')))"

definition header_field :: "string \<Rightarrow> EngramHeader \<Rightarrow> byte list \<Rightarrow> lib_error + EngramHeader \<times> byte list" where
  "header_field key h =
     (if key = ''version'' then set_from dec_str (\<lambda>s. h\<lparr>EngramHeader.Version := s\<rparr>)
      else if key = ''created'' then set_from dec_str (\<lambda>s. h\<lparr>Created := s\<rparr>)
      else if key = ''modified'' then set_from dec_str (\<lambda>s. h\<lparr>Modified := s\<rparr>)
      else if key = ''nodeCount'' then set_from dec_uint (\<lambda>n. h\<lparr>NodeCount := int n\<rparr>)
      else if key = ''security''
        then set_from (dec_struct security_field zero_SecurityInfo) (\<lambda>sec. h\<lparr>Security := sec\<rparr>)
      else (\<lambda>bs. Inl (LibError ''unsupported field'')))"

definition sample_Decode_header :: "byte list \<Rightarrow> lib_error + EngramHeader \<times> byte list" where
  "sample_Decode_header = dec_struct header_field zero_EngramHeader"

definition node_field :: "string \<Rightarrow> 'f MemoryNode \<Rightarrow> byte list \<Rightarrow> lib_error + 'f MemoryNode \<times> byte list" where
  "node_field key n =
     (if key = ''id'' then set_from dec_str (\<lambda>s. n\<lparr>ID := s\<rparr>)
      else if key = ''content'' then set_from dec_str (\<lambda>s. n\<lparr>Content := s\<rparr>)
      else if key = ''tags'' then set_from dec_strs (\<lambda>ss. n\<lparr>MemoryNode.Tags := ss\<rparr>)
      else if key = ''children'' then set_from dec_strs (\<lambda>ss. n\<lparr>Children := ss\<rparr>)
      else if key = ''parentId'' then set_from dec_str (\<lambda>s. n\<lparr>ParentID := s\<rparr>)
      else (\<lambda>bs. Inl (LibError ''unsupported field'')))"

definition sample_Decode_node :: "byte list \<Rightarrow> lib_error + ('f::zero) MemoryNode \<times> byte list" where
  "sample_Decode_node = dec_struct node_field zero_MemoryNode"

definition sample_Decode_nodes :: "byte list \<Rightarrow> lib_error + ('f::zero) MemoryNode list \<times> byte list" where
  "sample_Decode_nodes bs =
     (case dec_array_len bs of
        Inl e \<Rightarrow> Inl e
      | Inr (n, rest) \<Rightarrow> dec_list sample_Decode_node n rest)"

definition sample_Sum256 :: "byte list \<Rightarrow> byte list" where
  "sample_Sum256 bs = map (\<lambda>i. of_nat (37 * i + 171) + sum_list bs) [0..<32]"

definition sample_ex :: "real extern" where
  "sample_ex = \<lparr>Marshal_nodes = sample_Marshal_nodes, Marshal_header = sample_Marshal_header,
     Decode_header = sample_Decode_header, Decode_nodes = sample_Decode_nodes,
     Decode_node = sample_Decode_node, Sum256 = sample_Sum256\<rparr>"

section \<open>Case-insensitive comparison\<close>

text \<open>
  The comparison the specification describes for the stored digest: equality of
  strings up to the case of ASCII letters (\<open>strings.EqualFold\<close> on hex digits). The
  package itself never calls it; it is defined here to state what the specification
  says.
\<close>

definition ascii_lower :: "char \<Rightarrow> char" where
  "ascii_lower c = (if CHR ''A'' \<le> c \<and> c \<le> CHR ''Z'' then char_of (of_char c + (32::nat)) else c)"

definition EqualFold :: "string \<Rightarrow> string \<Rightarrow> bool" where
  "EqualFold s t = (map ascii_lower s = map ascii_lower t)"

section \<open>Sample data\<close>

text \<open>Small collections and files on which the theorems below are exercised.\<close>

definition sample_now :: string where
  "sample_now = ''2026-02-27T10:00:00Z''"

definition sample_nodes :: "real MemoryNode list" where
  "sample_nodes = [zero_MemoryNode\<lparr>ID := ''node-1'', Content := ''First memory'', Tags := [''test'', ''first'']\<rparr>,
                   zero_MemoryNode\<lparr>ID := ''node-2'', Content := ''Second memory'', ParentID := ''node-1''\<rparr>]"

definition sample_file :: "real EngramFile" where
  "sample_file = \<lparr>EngramFile.Header = zero_EngramHeader\<lparr>EngramHeader.Version := ''1.0''\<rparr>, Nodes = sample_nodes\<rparr>"

text \<open>
  The sample file as \<open>Encode\<close> writes it with the reference serializer at
  \<open>sample_now\<close>: the payload, the digest of the payload, the header that is
  serialized, and its bytes.
\<close>

definition sample_payload :: "byte list" where
  "sample_payload = [
      0x92, 0x83, 0xA2, 0x69, 0x64, 0xA6, 0x6E, 0x6F, 0x64, 0x65, 0x2D, 0x31,
      0xA7, 0x63, 0x6F, 0x6E, 0x74, 0x65, 0x6E, 0x74, 0xAC, 0x46, 0x69, 0x72,
      0x73, 0x74, 0x20, 0x6D, 0x65, 0x6D, 0x6F, 0x72, 0x79, 0xA4, 0x74, 0x61,
      0x67, 0x73, 0x92, 0xA4, 0x74, 0x65, 0x73, 0x74, 0xA5, 0x66, 0x69, 0x72,
      0x73, 0x74, 0x83, 0xA2, 0x69, 0x64, 0xA6, 0x6E, 0x6F, 0x64, 0x65, 0x2D,
      0x32, 0xA7, 0x63, 0x6F, 0x6E, 0x74, 0x65, 0x6E, 0x74, 0xAD, 0x53, 0x65,
      0x63, 0x6F, 0x6E, 0x64, 0x20, 0x6D, 0x65, 0x6D, 0x6F, 0x72, 0x79, 0xA8,
      0x70, 0x61, 0x72, 0x65, 0x6E, 0x74, 0x49, 0x64, 0xA6, 0x6E, 0x6F, 0x64,
      0x65, 0x2D, 0x31]"

definition sample_digest :: string where
  "sample_digest = ''88add2f71c41668bb0d5fa1f44698eb3d8fd22476c91b6db00254a6f94b9de03''"

definition sample_header' :: EngramHeader where
  "sample_header' = \<lparr>EngramHeader.Version = ''1.0'', Created = sample_now, Modified = sample_now,
     NodeCount = 2, Schema = zero_SchemaInfo,
     Security = \<lparr>Integrity = sample_digest, Encryption = [], KeyID = []\<rparr>,
     Metadata = zero_FileMeta\<rparr>"

definition sample_header_bytes :: "byte list" where
  "sample_header_bytes = [
      0x85, 0xA7, 0x76, 0x65, 0x72, 0x73, 0x69, 0x6F, 0x6E, 0xA3, 0x31, 0x2E,
      0x30, 0xA7, 0x63, 0x72, 0x65, 0x61, 0x74, 0x65, 0x64, 0xB4, 0x32, 0x30,
      0x32, 0x36, 0x2D, 0x30, 0x32, 0x2D, 0x32, 0x37, 0x54, 0x31, 0x30, 0x3A,
      0x30, 0x30, 0x3A, 0x30, 0x30, 0x5A, 0xA8, 0x6D, 0x6F, 0x64, 0x69, 0x66,
      0x69, 0x65, 0x64, 0xB4, 0x32, 0x30, 0x32, 0x36, 0x2D, 0x30, 0x32, 0x2D,
      0x32, 0x37, 0x54, 0x31, 0x30, 0x3A, 0x30, 0x30, 0x3A, 0x30, 0x30, 0x5A,
      0xA9, 0x6E, 0x6F, 0x64, 0x65, 0x43, 0x6F, 0x75, 0x6E, 0x74, 0x02, 0xA8,
      0x73, 0x65, 0x63, 0x75, 0x72, 0x69, 0x74, 0x79, 0x81, 0xA9, 0x69, 0x6E,
      0x74, 0x65, 0x67, 0x72, 0x69, 0x74, 0x79, 0xD9, 0x40, 0x38, 0x38, 0x61,
      0x64, 0x64, 0x32, 0x66, 0x37, 0x31, 0x63, 0x34, 0x31, 0x36, 0x36, 0x38,
      0x62, 0x62, 0x30, 0x64, 0x35, 0x66, 0x61, 0x31, 0x66, 0x34, 0x34, 0x36,
      0x39, 0x38, 0x65, 0x62, 0x33, 0x64, 0x38, 0x66, 0x64, 0x32, 0x32, 0x34,
      0x37, 0x36, 0x63, 0x39, 0x31, 0x62, 0x36, 0x64, 0x62, 0x30, 0x30, 0x32,
      0x35, 0x34, 0x61, 0x36, 0x66, 0x39, 0x34, 0x62, 0x39, 0x64, 0x65, 0x30,
      0x33]"

text \<open>
  The same file with the stored digest written in upper-case hex digits, the same file
  with the last payload byte flipped, a small file system, and a file whose header
  arrives with caller-supplied values in every field.
\<close>

definition upper_digest :: string where
  "upper_digest = ''88ADD2F71C41668BB0D5FA1F44698EB3D8FD22476C91B6DB00254A6F94B9DE03''"

definition upper_header :: EngramHeader where
  "upper_header = sample_header'\<lparr>Security := \<lparr>Integrity = upper_digest, Encryption = [], KeyID = []\<rparr>\<rparr>"

definition upper_header_bytes :: "byte list" where
  "upper_header_bytes = [
      0x85, 0xA7, 0x76, 0x65, 0x72, 0x73, 0x69, 0x6F, 0x6E, 0xA3, 0x31, 0x2E,
      0x30, 0xA7, 0x63, 0x72, 0x65, 0x61, 0x74, 0x65, 0x64, 0xB4, 0x32, 0x30,
      0x32, 0x36, 0x2D, 0x30, 0x32, 0x2D, 0x32, 0x37, 0x54, 0x31, 0x30, 0x3A,
      0x30, 0x30, 0x3A, 0x30, 0x30, 0x5A, 0xA8, 0x6D, 0x6F, 0x64, 0x69, 0x66,
      0x69, 0x65, 0x64, 0xB4, 0x32, 0x30, 0x32, 0x36, 0x2D, 0x30, 0x32, 0x2D,
      0x32, 0x37, 0x54, 0x31, 0x30, 0x3A, 0x30, 0x30, 0x3A, 0x30, 0x30, 0x5A,
      0xA9, 0x6E, 0x6F, 0x64, 0x65, 0x43, 0x6F, 0x75, 0x6E, 0x74, 0x02, 0xA8,
      0x73, 0x65, 0x63, 0x75, 0x72, 0x69, 0x74, 0x79, 0x81, 0xA9, 0x69, 0x6E,
      0x74, 0x65, 0x67, 0x72, 0x69, 0x74, 0x79, 0xD9, 0x40, 0x38, 0x38, 0x41,
      0x44, 0x44, 0x32, 0x46, 0x37, 0x31, 0x43, 0x34, 0x31, 0x36, 0x36, 0x38,
      0x42, 0x42, 0x30, 0x44, 0x35, 0x46, 0x41, 0x31, 0x46, 0x34, 0x34, 0x36,
      0x39, 0x38, 0x45, 0x42, 0x33, 0x44, 0x38, 0x46, 0x44, 0x32, 0x32, 0x34,
      0x37, 0x36, 0x43, 0x39, 0x31, 0x42, 0x36, 0x44, 0x42, 0x30, 0x30, 0x32,
      0x35, 0x34, 0x41, 0x36, 0x46, 0x39, 0x34, 0x42, 0x39, 0x44, 0x45, 0x30,
      0x33]"

definition corrupt_payload :: "byte list" where
  "corrupt_payload = butlast sample_payload @ [last sample_payload XOR 0xFF]"

definition sample_fs :: "string \<Rightarrow> lib_error + byte list" where
  "sample_fs path =
     (if path = ''good.engram'' then Inr (MagicBytes @ sample_header_bytes @ sample_payload)
      else if path = ''corrupt.engram'' then Inr (MagicBytes @ sample_header_bytes @ corrupt_payload)
      else if path = ''other.txt'' then Inr []
      else Inl (LibError ''no such file''))"


definition search_nodes :: "real MemoryNode list" where
  "search_nodes = [zero_MemoryNode\<lparr>ID := ''a'', Content := ''Apple'', Embedding := [1, 0, 0]\<rparr>,
                   zero_MemoryNode\<lparr>ID := ''b'', Content := ''Banana'', Embedding := [0, 1, 0]\<rparr>,
                   zero_MemoryNode\<lparr>ID := ''n'', Content := ''No embedding''\<rparr>,
                   zero_MemoryNode\<lparr>ID := ''c'', Content := ''Cherry'', Embedding := [3 / 5, 4 / 5, 0]\<rparr>]"

definition tied_nodes :: "real MemoryNode list" where
  "tied_nodes = map (\<lambda>c. zero_MemoryNode\<lparr>ID := [c], Embedding := [0, 1]\<rparr>) ''abcdefghijkl''
                @ [zero_MemoryNode\<lparr>ID := ''m'', Embedding := [1, 0]\<rparr>]"

definition nan_nodes :: "nan_real MemoryNode list" where
  "nan_nodes = [zero_MemoryNode\<lparr>ID := ''a'', Embedding := [Num 0, Num 1]\<rparr>,
                zero_MemoryNode\<lparr>ID := ''b'', Embedding := [NaN, Num 0]\<rparr>,
                zero_MemoryNode\<lparr>ID := ''c'', Embedding := [Num 1, Num 0]\<rparr>]"

definition dup_nodes :: "real MemoryNode list" where
  "dup_nodes = [zero_MemoryNode\<lparr>ID := ''x'', Content := ''first''\<rparr>,
                zero_MemoryNode\<lparr>ID := ''y''\<rparr>,
                zero_MemoryNode\<lparr>ID := ''x'', Content := ''second''\<rparr>]"

definition tag_nodes :: "real MemoryNode list" where
  "tag_nodes = [zero_MemoryNode\<lparr>ID := ''a'', Tags := [''t'', ''s'', ''t'']\<rparr>,
                zero_MemoryNode\<lparr>ID := ''b'', Tags := [''s'']\<rparr>]"

section \<open>Verified properties\<close>

subsection \<open>Index construction\<close>


lemma nodes_index_node: "nodes (index_node t i) = nodes t"
  by (simp add: index_node_def Let_def)

lemma nodes_fold: "nodes (fold (\<lambda>i t. index_node t i) is t) = nodes t"
  by (induction "is" arbitrary: t) (simp_all add: nodes_index_node)

lemma byID_index_node: "byID (index_node t i) = (byID t)(ID (nodes t ! i) \<mapsto> i)"
  by (simp add: index_node_def Let_def)

lemma byTag_index_node: "byTag (index_node t i) = index_tags (byTag t) i (MemoryNode.Tags (nodes t ! i))"
  by (simp add: index_node_def Let_def)

lemma build_0: "build ns 0 = \<lparr>nodes = ns, byID = Map.empty, byTag = Map.empty, children = Map.empty\<rparr>"
  by (simp add: build_def)

lemma build_Suc: "build ns (Suc n) = index_node (build ns n) n"
  by (simp add: build_def)

lemma nodes_build: "nodes (build ns n) = ns"
  by (simp add: build_def nodes_fold)

lemma byID_build:
  "byID (build ns n) nid = Some i \<longleftrightarrow>
     i < n \<and> ID (ns ! i) = nid \<and> (\<forall>j<n. ID (ns ! j) = nid \<longrightarrow> j \<le> i)"
proof (induction n arbitrary: i)
  case 0
  show ?case by (simp add: build_0)
next
  case (Suc n)
  show ?case
  proof (cases "ID (ns ! n) = nid")
    case True
    then show ?thesis
      by (auto simp: build_Suc byID_index_node nodes_build less_Suc_eq)
  next
    case False
    then show ?thesis
      using Suc.IH [of i]
      by (auto simp: build_Suc byID_index_node nodes_build less_Suc_eq)
  qed
qed

lemma slice_at_upd: "slice_at (m(k \<mapsto> v)) k' = (if k' = k then v else slice_at m k')"
  by (simp add: slice_at_def)

lemma slice_at_empty: "slice_at Map.empty k = []"
  by (simp add: slice_at_def)

lemma slice_at_index_tags:
  "slice_at (index_tags m i tags) tag = slice_at m tag @ replicate (count_list tags tag) i"
proof (induction tags arbitrary: m)
  case Nil
  show ?case by simp
next
  case (Cons a tags)
  have "slice_at (index_tags m i (a # tags)) tag =
        slice_at (m(a \<mapsto> slice_at m a @ [i])) tag @ replicate (count_list tags tag) i"
    by (simp only: index_tags.simps Cons.IH)
  also have "\<dots> = slice_at m tag @ replicate (count_list (a # tags) tag) i"
    by (cases "a = tag") (auto simp: slice_at_upd replicate_app_Cons_same)
  finally show ?case .
qed

lemma dom_index_tags: "dom (index_tags m i tags) = dom m \<union> set tags"
  by (induction tags arbitrary: m) auto

lemma slice_at_byTag_build:
  "slice_at (byTag (build ns n)) tag =
     concat (map (\<lambda>i. replicate (count_list (MemoryNode.Tags (ns ! i)) tag) i) [0..<n])"
  by (induction n) (simp_all add: build_0 build_Suc byTag_index_node nodes_build slice_at_index_tags slice_at_empty)

lemma dom_byTag_build:
  "dom (byTag (build ns n)) = (\<Union>i<n. set (MemoryNode.Tags (ns ! i)))"
  by (induction n) (auto simp: build_0 build_Suc byTag_index_node nodes_build dom_index_tags less_Suc_eq)


lemma NewMemoryTree_build: "NewMemoryTree ns = build ns (length ns)"
  by (simp add: NewMemoryTree_def build_def)

lemma count_list_replicate: "count_list (replicate k x) y = (if x = y then k else 0)"
  by (induction k) auto

lemma count_list_concat_replicate:
  "count_list (concat (map (\<lambda>j. replicate (c j) j) [0..<n])) i = (if i < n then c i else 0)"
  by (induction n) (auto simp: less_Suc_eq count_list_replicate)

lemma count_list_distinct: "distinct xs \<Longrightarrow> count_list xs x = (if x \<in> set xs then 1 else 0)"
  by (induction xs) auto

lemma finite_dom_byTag_build: "finite (dom (byTag (build ns n)))"
  by (simp add: dom_byTag_build)

lemma Union_tags_set: "(\<Union>i<length ns. set (MemoryNode.Tags (ns ! i))) = (\<Union>n\<in>set ns. set (MemoryNode.Tags n))"
proof -
  have "set ns = (\<lambda>i. ns ! i) ` {..<length ns}"
    by (auto simp: in_set_conv_nth)
  then show ?thesis by simp
qed

text \<open>
  Claim C9. When several nodes of a collection carry the same id, \<open>Get\<close> returns the
  node at the greatest position with that id (each iteration of the construction loop
  overwrites the entry of the id table), and it returns a node only if one carries the
  id; \<open>Count\<close> and \<open>GetAll\<close> still report every node, duplicates included.
\<close>

theorem Get_last_duplicate:
  "(Get (NewMemoryTree ns) nid = Some i \<longleftrightarrow>
      i < length ns \<and> ID (ns ! i) = nid \<and> (\<forall>j<length ns. ID (ns ! j) = nid \<longrightarrow> j \<le> i))
   \<and> Count (NewMemoryTree ns) = int (length ns)
   \<and> GetAll (NewMemoryTree ns) = ns"
  by (simp add: Get_def Count_def GetAll_def NewMemoryTree_build byID_build nodes_build)

theorem Get_last_duplicate_witness:
  "Get (NewMemoryTree dup_nodes) ''x'' = Some 2
   \<and> Content (GetAll (NewMemoryTree dup_nodes) ! 2) = ''second''
   \<and> Count (NewMemoryTree dup_nodes) = 3
   \<and> GetAll (NewMemoryTree dup_nodes) = dup_nodes"
  using Get_last_duplicate [of dup_nodes "''x''" 2]
  by (simp add: dup_nodes_def zero_MemoryNode_def)

text \<open>
  Claim C10. A node that lists a tag \<open>k\<close> times occurs \<open>k\<close> times in
  \<open>GetByTag\<close> of that tag (the bucket is appended to once per occurrence);
  \<open>GetTags\<close> lists every tag that occurs exactly once; and \<open>GetByTag\<close> of a tag
  that no node carries is the empty result.
\<close>

theorem GetByTag_repeated_tag:
  "(i < length ns \<longrightarrow>
      count_list (GetByTag (NewMemoryTree ns) tag) i = count_list (MemoryNode.Tags (ns ! i)) tag)
   \<and> count_list (GetTags (NewMemoryTree ns)) tag
       = (if \<exists>n\<in>set ns. tag \<in> set (MemoryNode.Tags n) then 1 else 0)
   \<and> ((\<forall>n\<in>set ns. tag \<notin> set (MemoryNode.Tags n)) \<longrightarrow> GetByTag (NewMemoryTree ns) tag = [])"
proof (intro conjI impI)
  assume "i < length ns"
  then show "count_list (GetByTag (NewMemoryTree ns) tag) i = count_list (MemoryNode.Tags (ns ! i)) tag"
    by (simp add: GetByTag_def NewMemoryTree_build slice_at_byTag_build count_list_concat_replicate)
next
  have "distinct (GetTags (NewMemoryTree ns))"
    by (simp add: GetTags_def)
  moreover have "set (GetTags (NewMemoryTree ns)) = (\<Union>n\<in>set ns. set (MemoryNode.Tags n))"
    by (simp add: GetTags_def NewMemoryTree_build finite_dom_byTag_build)
       (simp add: dom_byTag_build Union_tags_set)
  ultimately show "count_list (GetTags (NewMemoryTree ns)) tag
       = (if \<exists>n\<in>set ns. tag \<in> set (MemoryNode.Tags n) then 1 else 0)"
    by (simp add: count_list_distinct)
next
  assume "\<forall>n\<in>set ns. tag \<notin> set (MemoryNode.Tags n)"
  then have "\<And>i. i < length ns \<Longrightarrow> count_list (MemoryNode.Tags (ns ! i)) tag = 0"
    by simp
  then show "GetByTag (NewMemoryTree ns) tag = []"
    by (simp add: GetByTag_def NewMemoryTree_build slice_at_byTag_build)
qed

theorem GetByTag_repeated_tag_witness:
  "count_list (GetByTag (NewMemoryTree tag_nodes) ''t'') 0 = 2
   \<and> count_list (GetTags (NewMemoryTree tag_nodes)) ''t'' = 1
   \<and> GetByTag (NewMemoryTree tag_nodes) ''zz'' = []"
  using GetByTag_repeated_tag [of 0 tag_nodes "''t''"] GetByTag_repeated_tag [of 0 tag_nodes "''zz''"]
  by (simp add: tag_nodes_def zero_MemoryNode_def)

subsection \<open>Cosine similarity and semantic search\<close>

lemma dot_snoc:
  "length xs = length ys \<Longrightarrow>
   dot F (xs @ [x]) (ys @ [y]) = fadd F (dot F xs ys) (fmul F (float64 F x) (float64 F y))"
  by (simp add: dot_def)

lemma cosine_fold:
  "n \<le> length a \<Longrightarrow> n \<le> length b \<Longrightarrow>
   fold (cosine_step F a b) [0..<n] (zero64 F, zero64 F, zero64 F)
     = (dot F (take n a) (take n b), sqnorm F (take n a), sqnorm F (take n b))"
proof (induction n)
  case 0
  show ?case by (simp add: dot_def sqnorm_def)
next
  case (Suc n)
  then have a: "take (Suc n) a = take n a @ [a ! n]" and b: "take (Suc n) b = take n b @ [b ! n]"
    by (simp_all add: take_Suc_conv_app_nth)
  have l: "length (take n a) = length (take n b)"
    using Suc.prems by simp
  show ?case
    using Suc by (simp add: cosine_step_def a b sqnorm_def dot_snoc l)
qed

lemma scan_fold:
  "fold (\<lambda>i results. if P i then results else results @ [f i]) is acc
     = acc @ map f (filter (\<lambda>i. \<not> P i) is)"
  by (induction "is" arbitrary: acc) simp_all

lemma Search_scan_eq:
  "Search_scan F t q =
     map (\<lambda>i. \<lparr>Node = i, Score = cosineSimilarity F q (Embedding (nodes t ! i))\<rparr>)
       (filter (\<lambda>i. Embedding (nodes t ! i) \<noteq> []) [0..<length (nodes t)])"
  by (simp add: Search_scan_def scan_fold)

lemma mset_stable_insert: "mset (stable_insert lt x ys) = add_mset x (mset ys)"
  by (induction ys) simp_all

lemma mset_stable_sort: "mset (stable_sort lt xs) = mset xs"
  by (induction xs) (simp_all add: stable_sort_def mset_stable_insert)

lemma set_stable_insert: "set (stable_insert lt x ys) = insert x (set ys)"
  by (induction ys) auto

lemma sorted_stable_insert:
  assumes "transitive_ordering lt S" "x \<in> S" "set ys \<subseteq> S"
    and "sorted_wrt (\<lambda>x y. \<not> lt y x) ys"
  shows "sorted_wrt (\<lambda>x y. \<not> lt y x) (stable_insert lt x ys)"
  using assms(3,4)
proof (induction ys)
  case Nil
  show ?case by simp
next
  case (Cons y ys)
  have irr: "\<And>u. u \<in> S \<Longrightarrow> \<not> lt u u"
    and tr: "\<And>u v w. u \<in> S \<Longrightarrow> v \<in> S \<Longrightarrow> w \<in> S \<Longrightarrow> lt u v \<Longrightarrow> lt v w \<Longrightarrow> lt u w"
    and ntr: "\<And>u v w. u \<in> S \<Longrightarrow> v \<in> S \<Longrightarrow> w \<in> S \<Longrightarrow> \<not> lt u v \<Longrightarrow> \<not> lt v w \<Longrightarrow> \<not> lt u w"
    using assms(1) unfolding transitive_ordering_def by blast+
  from Cons.prems have yS: "y \<in> S" and ysS: "set ys \<subseteq> S"
    and yle: "\<forall>z\<in>set ys. \<not> lt z y" and sys: "sorted_wrt (\<lambda>x y. \<not> lt y x) ys"
    by auto
  show ?case
  proof (cases "lt y x")
    case True
    then have "\<not> lt x y"
      using irr tr assms(2) yS by blast
    with True yle Cons.IH [OF ysS sys] show ?thesis
      by (auto simp: set_stable_insert)
  next
    case False
    have "\<not> lt z x" if "z \<in> set ys" for z
      using ntr [of z y x] that yle False ysS yS assms(2) by blast
    with False Cons.prems show ?thesis
      by auto
  qed
qed

lemma sorted_stable_sort:
  assumes "transitive_ordering lt S" "set xs \<subseteq> S"
  shows "sorted_wrt (\<lambda>x y. \<not> lt y x) (stable_sort lt xs)"
  using assms(2)
proof (induction xs)
  case Nil
  show ?case by (simp add: stable_sort_def)
next
  case (Cons x xs)
  have "set (stable_sort lt xs) = set xs"
    using mset_stable_sort [of lt xs] by (metis set_mset_mset)
  with Cons show ?case
    using sorted_stable_insert [OF assms(1), of x "stable_sort lt xs"]
    by (simp add: stable_sort_def)
qed

lemma trans_ord_facts:
  assumes "transitive_ordering lt S"
  shows "\<And>u. u \<in> S \<Longrightarrow> \<not> lt u u"
    and "\<And>u v w. u \<in> S \<Longrightarrow> v \<in> S \<Longrightarrow> w \<in> S \<Longrightarrow> lt u v \<Longrightarrow> lt v w \<Longrightarrow> lt u w"
    and "\<And>u v w. u \<in> S \<Longrightarrow> v \<in> S \<Longrightarrow> w \<in> S \<Longrightarrow> \<not> lt u v \<Longrightarrow> \<not> lt v w \<Longrightarrow> \<not> lt u w"
    and "\<And>u v. u \<in> S \<Longrightarrow> v \<in> S \<Longrightarrow> lt u v \<Longrightarrow> \<not> lt v u"
  using assms unfolding transitive_ordering_def by blast+

lemma mset_sift: "mset (sift lt x ys) = add_mset x (mset ys)"
  by (induction ys) simp_all

lemma set_sift: "set (sift lt x ys) = insert x (set ys)"
  by (induction ys) auto

lemma mset_fold_sift: "mset (fold (sift lt) xs acc) = mset xs + mset acc"
  by (induction xs arbitrary: acc) (simp_all add: mset_sift)

lemma mset_insertionSort_func: "mset (insertionSort_func lt xs) = mset xs"
  by (simp add: insertionSort_func_def mset_fold_sift)

lemma sorted_sift:
  assumes "transitive_ordering lt S" "x \<in> S" "set ys \<subseteq> S"
    and "sorted_wrt (\<lambda>a b. \<not> lt a b) ys"
  shows "sorted_wrt (\<lambda>a b. \<not> lt a b) (sift lt x ys)"
  using assms(3,4)
proof (induction ys)
  case Nil
  show ?case by simp
next
  case (Cons y ys)
  note f = trans_ord_facts [OF assms(1)]
  from Cons.prems have yS: "y \<in> S" and ysS: "set ys \<subseteq> S"
    and yle: "\<forall>z\<in>set ys. \<not> lt y z" and sys: "sorted_wrt (\<lambda>a b. \<not> lt a b) ys"
    by auto
  show ?case
  proof (cases "lt x y")
    case True
    then have "\<not> lt y x"
      using f(4) assms(2) yS by blast
    with True yle Cons.IH [OF ysS sys] show ?thesis
      by (auto simp: set_sift)
  next
    case False
    have "\<not> lt x z" if "z \<in> set ys" for z
      using f(3) [of x y z] that yle False ysS yS assms(2) by blast
    with False Cons.prems show ?thesis
      by auto
  qed
qed

lemma sorted_fold_sift:
  assumes "transitive_ordering lt S"
  shows "set xs \<subseteq> S \<Longrightarrow> set acc \<subseteq> S \<Longrightarrow> sorted_wrt (\<lambda>a b. \<not> lt a b) acc
         \<Longrightarrow> sorted_wrt (\<lambda>a b. \<not> lt a b) (fold (sift lt) xs acc)"
proof (induction xs arbitrary: acc)
  case Nil
  then show ?case by simp
next
  case (Cons x xs)
  have "sorted_wrt (\<lambda>a b. \<not> lt a b) (sift lt x acc)"
    using sorted_sift [OF assms, of x acc] Cons.prems by simp
  moreover have "set (sift lt x acc) \<subseteq> S"
    using Cons.prems by (simp add: set_sift)
  ultimately show ?case
    using Cons.IH [of "sift lt x acc"] Cons.prems by simp
qed

lemma sorted_insertionSort_func:
  assumes "transitive_ordering lt S" "set xs \<subseteq> S"
  shows "sorted_wrt (\<lambda>x y. \<not> lt y x) (insertionSort_func lt xs)"
  using sorted_fold_sift [OF assms(1), of xs "[]"] assms(2)
  by (simp add: insertionSort_func_def sorted_wrt_rev)

lemma sorted_partialInsertionSort_func:
  "transitive_ordering lt S \<Longrightarrow> set xs \<subseteq> S \<Longrightarrow> partialInsertionSort_func lt xs
     \<Longrightarrow> sorted_wrt (\<lambda>x y. \<not> lt y x) xs"
proof (induction lt xs rule: partialInsertionSort_func.induct)
  case (1 lt x y data)
  note f = trans_ord_facts [OF 1(2)]
  from 1 have s: "sorted_wrt (\<lambda>x y. \<not> lt y x) (y # data)" and xy: "\<not> lt y x"
    by auto
  have "\<not> lt z x" if "z \<in> set data" for z
    using f(3) [of z y x] that s xy 1(3) by auto
  with s xy show ?case by auto
qed simp_all

lemma partition_scan_props:
  "partition_scan lt p data = (l, r) \<Longrightarrow>
     mset l + mset r = mset data \<and> (\<forall>x\<in>set l. lt x p) \<and> (\<forall>x\<in>set r. \<not> lt x p)"
proof (induction lt p data arbitrary: l r rule: partition_scan.induct)
  case (1 lt p data)
  define left where "left = takeWhile (\<lambda>y. lt y p) data"
  define rest where "rest = dropWhile (\<lambda>y. lt y p) data"
  define right where "right = rev (takeWhile (\<lambda>y. \<not> lt y p) (rev rest))"
  define between where "between = rev (dropWhile (\<lambda>y. \<not> lt y p) (rev rest))"
  have d: "data = left @ rest"
    by (simp add: left_def rest_def)
  have "rev rest = rev right @ rev between"
    by (simp add: right_def between_def)
  then have r: "rest = between @ right"
    by (metis rev_append rev_rev_ident)
  have L: "\<forall>x\<in>set left. lt x p"
    unfolding left_def by (metis set_takeWhileD)
  have R: "\<forall>x\<in>set right. \<not> lt x p"
    unfolding right_def by (metis set_rev set_takeWhileD)
  have eq: "partition_scan lt p data =
      (if between = [] then (left, right)
       else case partition_scan lt p (butlast (tl between)) of
              (l, r) \<Rightarrow> (left @ [last between] @ l, r @ [hd between] @ right))"
    unfolding left_def right_def between_def rest_def
    by (rule trans [OF partition_scan.simps]) (simp only: Let_def)
  show ?case
  proof (cases "between = []")
    case True
    from 1(2) True have "l = left" "r = right"
      unfolding eq by simp_all
    then have "mset l + mset r = mset data"
      by (subst d, subst r) (simp add: True)
    with L R \<open>l = left\<close> \<open>r = right\<close> show ?thesis by simp
  next
    case False
    obtain l' r' where s: "partition_scan lt p (butlast (tl between)) = (l', r')"
      by (cases "partition_scan lt p (butlast (tl between))")
    from 1(2) False s have lr: "l = left @ [last between] @ l'" "r = r' @ [hd between] @ right"
      unfolding eq by simp_all
    have ih: "mset l' + mset r' = mset (butlast (tl between)) \<and> (\<forall>x\<in>set l'. lt x p) \<and> (\<forall>x\<in>set r'. \<not> lt x p)"
      using 1(1) [OF left_def rest_def right_def between_def False s] .
    have "rest \<noteq> []" using r False by simp
    then have "\<not> lt (hd rest) p"
      unfolding rest_def by (metis hd_dropWhile)
    then have h: "\<not> lt (hd between) p"
      using r False by simp
    have "dropWhile (\<lambda>y. \<not> lt y p) (rev rest) \<noteq> []"
      using False by (simp add: between_def)
    then have "lt (hd (dropWhile (\<lambda>y. \<not> lt y p) (rev rest))) p"
      using hd_dropWhile [of "\<lambda>y. \<not> lt y p" "rev rest"] by blast
    then have t: "lt (last between) p"
      using False by (simp add: between_def last_rev)
    from h t have "hd between \<noteq> last between" by auto
    then have b: "between = hd between # butlast (tl between) @ [last between]"
      using False
    proof (cases between)
      case Nil
      with False show ?thesis by simp
    next
      case (Cons u us)
      with \<open>hd between \<noteq> last between\<close> have "us \<noteq> []"
        by auto
      with Cons show ?thesis
        by simp
    qed
    have mb: "mset between = add_mset (hd between) (add_mset (last between) (mset (butlast (tl between))))"
      by (subst b) simp
    have md: "mset data = mset left + mset between + mset right"
      by (subst d, subst r) simp
    have m: "mset l + mset r = mset data"
      unfolding md mb lr using ih by simp
    have sl: "\<forall>x\<in>set l. lt x p"
      unfolding lr using L t ih by auto
    have sr: "\<forall>x\<in>set r. \<not> lt x p"
      unfolding lr using R h ih by auto
    from m sl sr show ?thesis
      by (intro conjI)
  qed
qed

lemma partition_func_props:
  assumes "partition_func lt data pivot = (left, p, right)" "pivot < length data"
  shows "mset left + add_mset p (mset right) = mset data
       \<and> (\<forall>x\<in>set left. lt x p) \<and> (\<forall>x\<in>set right. \<not> lt x p)"
proof -
  define data' where "data' = data[0 := data ! pivot, pivot := data ! 0]"
  obtain l r where s: "partition_scan lt (hd data') (tl data') = (l, r)"
    by (cases "partition_scan lt (hd data') (tl data')")
  from assms(1) s have e: "left = (if l = [] then [] else last l # butlast l)" "p = hd data'" "right = r"
    by (simp_all add: partition_func_def Let_def data'_def)
  from assms(2) have "0 < length data"
    by auto
  from mset_swap [OF assms(2) this] have m: "mset data' = mset data"
    by (simp only: data'_def)
  have "data' \<noteq> []"
    using assms(2) by (auto simp: data'_def)
  then have "mset data' = add_mset (hd data') (mset (tl data'))"
    by (cases data') simp_all
  with m have m': "mset data = add_mset p (mset (tl data'))"
    by (simp add: e)
  have ml: "mset left = mset l" "set left = set l"
    unfolding e by (cases l rule: rev_cases; auto)+
  from partition_scan_props [OF s] show ?thesis
    using m' ml e by simp
qed


lemma median_func_index:
  "median_func lt data a b c s = (j, s') \<Longrightarrow> j = a \<or> j = b \<or> j = c"
  by (auto simp: median_func_def order2_func_def split: if_splits)

lemma choosePivot_func_index:
  assumes "choosePivot_func lt data = (pivot, swaps)" "data \<noteq> []"
  shows "pivot < length data"
proof -
  have "0 < length data"
    using assms(2) by simp
  then have "length data div 4 * 1 < length data" "length data div 4 * 2 < length data"
    "length data div 4 * 3 < length data"
    by presburger+
  with median_func_index [of lt data _ _ _ 0 pivot swaps] assms(1) show ?thesis
    unfolding choosePivot_func_def Let_def by blast
qed

lemma mset_pdqsort_func: "mset (pdqsort_func lt data) = mset data"
proof (cases "length data \<le> 12")
  case True
  then show ?thesis
    by (simp add: pdqsort_func_def mset_insertionSort_func)
next
  case False
  obtain pivot swaps where c: "choosePivot_func lt data = (pivot, swaps)"
    by (cases "choosePivot_func lt data")
  obtain left p right where pf: "partition_func lt data pivot = (left, p, right)"
    by (cases "partition_func lt data pivot")
  from False have "data \<noteq> []"
    by auto
  from partition_func_props [OF pf choosePivot_func_index [OF c this]]
  have "mset left + add_mset p (mset right) = mset data"
    by simp
  with False c pf show ?thesis
    by (simp add: pdqsort_func_def mset_insertionSort_func)
qed

lemma sorted_pdqsort_func:
  assumes "transitive_ordering lt (set data)"
  shows "sorted_wrt (\<lambda>x y. \<not> lt y x) (pdqsort_func lt data)"
proof (cases "length data \<le> 12")
  case True
  then show ?thesis
    using sorted_insertionSort_func [OF assms] by (simp add: pdqsort_func_def)
next
  case False
  note f = trans_ord_facts [OF assms]
  obtain pivot swaps where c: "choosePivot_func lt data = (pivot, swaps)"
    by (cases "choosePivot_func lt data")
  obtain left p right where pf: "partition_func lt data pivot = (left, p, right)"
    by (cases "partition_func lt data pivot")
  from False have "data \<noteq> []"
    by auto
  from partition_func_props [OF pf choosePivot_func_index [OF c this]]
  have m: "mset left + add_mset p (mset right) = mset data"
    and l: "\<forall>x\<in>set left. lt x p" and r: "\<forall>x\<in>set right. \<not> lt x p"
    by simp_all
  from m have "set_mset (mset left + add_mset p (mset right)) = set data"
    by (simp only: set_mset_mset)
  then have sub: "set left \<subseteq> set data" "p \<in> set data" "set right \<subseteq> set data"
    by auto
  have sl: "sorted_wrt (\<lambda>x y. \<not> lt y x) (insertionSort_func lt left)"
    by (rule sorted_insertionSort_func [OF assms sub(1)])
  have sr: "sorted_wrt (\<lambda>x y. \<not> lt y x) (insertionSort_func lt right)"
    by (rule sorted_insertionSort_func [OF assms sub(3)])
  have el: "set (insertionSort_func lt left) = set left"
    using mset_insertionSort_func [of lt left] by (metis set_mset_mset)
  have er: "set (insertionSort_func lt right) = set right"
    using mset_insertionSort_func [of lt right] by (metis set_mset_mset)
  have lp: "\<not> lt p x" if "x \<in> set left" for x
    using f(4) [of x p] that l sub by auto
  have lr: "\<not> lt y x" if "x \<in> set left" "y \<in> set right" for x y
    using f(2) [of y x p] that l r sub by auto
  have "sorted_wrt (\<lambda>x y. \<not> lt y x)
          (insertionSort_func lt left @ [p] @ insertionSort_func lt right)"
    using sl sr lp lr r by (auto simp: sorted_wrt_append el er)
  moreover have "sorted_wrt (\<lambda>x y. \<not> lt y x) data" if "partialInsertionSort_func lt data"
    using sorted_partialInsertionSort_func [OF assms _ that] by simp
  ultimately show ?thesis
    using False c pf by (simp add: pdqsort_func_def)
qed

lemma sort_Slice_total: "\<exists>ys. sort_Slice lt xs ys"
proof (cases "length xs \<le> 13")
  case True
  then have "sort_Slice lt xs (pdqsort_func lt xs)"
    by (simp add: sort_Slice_def)
  then show ?thesis by (rule exI)
next
  case False
  then have "sort_Slice lt xs (stable_sort lt xs)"
    by (simp add: sort_Slice_def mset_stable_sort sorted_stable_sort)
  then show ?thesis by (rule exI)
qed

lemma sort_Slice_mset: "sort_Slice lt xs ys \<Longrightarrow> mset ys = mset xs"
  by (cases "length xs \<le> 13") (simp_all add: sort_Slice_def mset_pdqsort_func)

lemma sort_Slice_sorted:
  "sort_Slice lt xs ys \<Longrightarrow> transitive_ordering lt (set xs) \<Longrightarrow> sorted_wrt (\<lambda>x y. \<not> lt y x) ys"
  by (cases "length xs \<le> 13") (simp_all add: sort_Slice_def sorted_pdqsort_func)

lemma limit_results_eq:
  "limit_results limit results = (if 0 < limit then take (nat limit) results else results)"
  by (simp add: limit_results_def)

lemma Search_cases:
  assumes "Search F t q limit out"
  shows "(q = [] \<and> out = [])
       \<or> (q \<noteq> [] \<and> (\<exists>results. sort_Slice (by_score F) (Search_scan F t q) results
                          \<and> out = limit_results limit results))"
  using assms by (cases rule: Search.cases) auto

lemma nodes_NewMemoryTree: "nodes (NewMemoryTree ns) = ns"
  by (simp add: NewMemoryTree_build nodes_build)

lemma transitive_ordering_exact_reals: "transitive_ordering (by_score exact_reals) S"
  by (auto simp: transitive_ordering_def by_score_def exact_reals_def)

lemmas cosine_eval = cosineSimilarity_def cosine_step_def exact_reals_def upt_rec

lemmas sort_eval = sort_Slice_def pdqsort_func_def insertionSort_func_def choosePivot_func_def
  median_func_def order2_func_def partition_func_def partition_scan.simps Let_def by_score_def

lemma scan_search_nodes:
  "Search_scan exact_reals (NewMemoryTree search_nodes) [1, 0, 0]
     = [\<lparr>Node = 0, Score = 1\<rparr>, \<lparr>Node = 1, Score = 0\<rparr>, \<lparr>Node = 3, Score = 3 / 5\<rparr>]"
  by (simp add: Search_scan_def nodes_NewMemoryTree search_nodes_def zero_MemoryNode_def cosine_eval)

lemma scan_tied_nodes:
  "Search_scan exact_reals (NewMemoryTree tied_nodes) [1, 0]
     = map (\<lambda>i. \<lparr>Node = i, Score = 0\<rparr>) [0, 1, 2, 3, 4, 5, 6, 7, 8, 9, 10, 11] @ [\<lparr>Node = 12, Score = 1\<rparr>]"
  by (simp add: Search_scan_def nodes_NewMemoryTree tied_nodes_def zero_MemoryNode_def cosine_eval)

lemma scan_nan_nodes:
  "Search_scan nan_reals (NewMemoryTree nan_nodes) [Num 1, Num 0]
     = [\<lparr>Node = 0, Score = Num 0\<rparr>, \<lparr>Node = 1, Score = NaN\<rparr>, \<lparr>Node = 2, Score = Num 1\<rparr>]"
  by (simp add: Search_scan_def nodes_NewMemoryTree nan_nodes_def zero_MemoryNode_def
        cosineSimilarity_def cosine_step_def nan_reals_def upt_rec)

lemma sort_search_nodes:
  "sort_Slice (by_score exact_reals) (Search_scan exact_reals (NewMemoryTree search_nodes) [1, 0, 0]) ys
     \<longleftrightarrow> ys = [\<lparr>Node = 0, Score = 1\<rparr>, \<lparr>Node = 3, Score = 3 / 5\<rparr>, \<lparr>Node = 1, Score = 0\<rparr>]"
  unfolding scan_search_nodes by (simp add: sort_eval) (simp add: exact_reals_def)

lemma sort_tied_nodes:
  "sort_Slice (by_score exact_reals) (Search_scan exact_reals (NewMemoryTree tied_nodes) [1, 0]) ys
     \<longleftrightarrow> ys = \<lparr>Node = 12, Score = 1\<rparr>
                # map (\<lambda>i. \<lparr>Node = i, Score = 0\<rparr>) [6, 2, 3, 4, 5, 0, 7, 8, 9, 10, 11, 1]"
  unfolding scan_tied_nodes by (simp add: sort_eval exact_reals_def)

lemma sort_nan_nodes:
  "sort_Slice (by_score nan_reals) (Search_scan nan_reals (NewMemoryTree nan_nodes) [Num 1, Num 0]) ys
     \<longleftrightarrow> ys = [\<lparr>Node = 0, Score = Num 0\<rparr>, \<lparr>Node = 1, Score = NaN\<rparr>, \<lparr>Node = 2, Score = Num 1\<rparr>]"
  unfolding scan_nan_nodes by (simp add: sort_eval nan_reals_def)

lemma stable_tied_nodes:
  "stable_sort (by_score exact_reals) (Search_scan exact_reals (NewMemoryTree tied_nodes) [1, 0])
     = \<lparr>Node = 12, Score = 1\<rparr>
       # map (\<lambda>i. \<lparr>Node = i, Score = 0\<rparr>) [0, 1, 2, 3, 4, 5, 6, 7, 8, 9, 10, 11]"
  unfolding scan_tied_nodes by (simp add: stable_sort_def by_score_def exact_reals_def)

lemma Search_iff:
  "Search F t q limit out \<longleftrightarrow>
     (if q = [] then out = []
      else \<exists>results. sort_Slice (by_score F) (Search_scan F t q) results
                    \<and> out = limit_results limit results)"
proof (cases "q = []")
  case True
  have "Search F t q limit []"
    by (rule Search_nil) (simp add: True)
  with True Search_cases [of F t q limit out] show ?thesis
    by auto
next
  case False
  have "Search F t q limit (limit_results limit results)"
    if "sort_Slice (by_score F) (Search_scan F t q) results" for results
    by (rule Search_sorted [OF _ that]) (simp add: False)
  with False Search_cases [of F t q limit out] show ?thesis
    by auto
qed

lemma Search_search_nodes:
  "Search exact_reals (NewMemoryTree search_nodes) [1, 0, 0] 2
     [\<lparr>Node = 0, Score = 1\<rparr>, \<lparr>Node = 3, Score = 3 / 5\<rparr>]"
  by (simp add: Search_iff sort_search_nodes limit_results_def)

text \<open>
  Claim C8. For every arithmetic of the two floating-point types: \<open>cosineSimilarity\<close>
  returns 0 when the vectors differ in length or are empty, and returns 0 when the
  squared norm accumulated for either vector is zero; in the remaining case, and only
  then, it divides, and the result is the dot product divided by the product of the
  square roots of two non-zero squared norms. The three sums are accumulated in
  \<open>float64\<close> from the components converted to \<open>float64\<close>, and the quotient is
  narrowed to \<open>float32\<close> at the end.
\<close>

theorem cosineSimilarity_guarded:
  "(length a \<noteq> length b \<or> a = [] \<longrightarrow> cosineSimilarity F a b = zero32 F)
   \<and> (is_zero F (sqnorm F a) \<or> is_zero F (sqnorm F b) \<longrightarrow> cosineSimilarity F a b = zero32 F)
   \<and> (length a = length b \<and> a \<noteq> [] \<and> \<not> is_zero F (sqnorm F a) \<and> \<not> is_zero F (sqnorm F b) \<longrightarrow>
        cosineSimilarity F a b
          = float32 F (fdiv F (dot F a b) (fmul F (fsqrt F (sqnorm F a)) (fsqrt F (sqnorm F b)))))"
proof -
  have "fold (cosine_step F a b) [0..<length a] (zero64 F, zero64 F, zero64 F)
          = (dot F a b, sqnorm F a, sqnorm F b)" if "length a = length b"
    using cosine_fold [of "length a" a b F] that by simp
  then show ?thesis
    by (auto simp: cosineSimilarity_def)
qed

theorem cosineSimilarity_guarded_witness:
  "cosineSimilarity exact_reals [1, 0] [1, 0, 0] = 0
   \<and> cosineSimilarity exact_reals [] [] = 0
   \<and> cosineSimilarity exact_reals [0, 0] [1, 2] = 0
   \<and> cosineSimilarity exact_reals [1, 0, 0] [3 / 5, 4 / 5, 0] = 3 / 5"
  using cosineSimilarity_guarded [of "[1, 0]" "[1, 0, 0]" exact_reals]
        cosineSimilarity_guarded [of "[]" "[]" exact_reals]
        cosineSimilarity_guarded [of "[0, 0]" "[1, 2]" exact_reals]
        cosineSimilarity_guarded [of "[1, 0, 0]" "[3 / 5, 4 / 5, 0]" exact_reals]
  by (simp add: sqnorm_def dot_def exact_reals_def)

text \<open>
  Claim C3, as amended. \<open>Search\<close> always returns. An empty query gives the empty
  result. For a non-empty query the result is the truncation, to \<open>limit\<close> entries when
  \<open>limit > 0\<close> and to nothing less than all of them otherwise, of a rearrangement of the
  pairs of node and cosine score over exactly the nodes with a non-empty embedding, in
  which no pair has a greater score than one before it whenever \<open>>\<close> is a transitive
  ordering of the scores (no score is NaN). Nothing is promised about the order of
  pairs with equal scores.
\<close>

theorem Search_ranked:
  "(\<exists>out. Search F t q limit out)
   \<and> (\<forall>out. Search F t q limit out \<longrightarrow>
        (q = [] \<longrightarrow> out = [])
      \<and> (q \<noteq> [] \<longrightarrow>
           (\<exists>results.
               mset results = mset (map (\<lambda>i. \<lparr>Node = i, Score = cosineSimilarity F q (Embedding (nodes t ! i))\<rparr>)
                                      (filter (\<lambda>i. Embedding (nodes t ! i) \<noteq> []) [0..<length (nodes t)]))
             \<and> (transitive_ordering (by_score F) (set results) \<longrightarrow>
                  sorted_wrt (\<lambda>x y. \<not> greater F (Score y) (Score x)) results)
             \<and> out = (if 0 < limit then take (nat limit) results else results))))"
proof (intro conjI allI impI)
  show "\<exists>out. Search F t q limit out"
  proof (cases "length q = 0")
    case True
    have "Search F t q limit []"
      by (rule Search_nil [OF True])
    then show ?thesis by (rule exI)
  next
    case False
    obtain results where "sort_Slice (by_score F) (Search_scan F t q) results"
      using sort_Slice_total by blast
    then have "Search F t q limit (limit_results limit results)"
      by (rule Search_sorted [OF False])
    then show ?thesis by (rule exI)
  qed
next
  fix out
  assume "Search F t q limit out" "q = []"
  then show "out = []"
    using Search_cases by blast
next
  fix out
  assume s: "Search F t q limit out" and q: "q \<noteq> []"
  from Search_cases [OF s] q obtain results where
    r: "sort_Slice (by_score F) (Search_scan F t q) results" and o: "out = limit_results limit results"
    by blast
  from r have m: "mset results = mset (Search_scan F t q)"
    by (rule sort_Slice_mset)
  then have "set results = set (Search_scan F t q)"
    by (metis set_mset_mset)
  with sort_Slice_sorted [OF r]
  have st: "transitive_ordering (by_score F) (set results) \<longrightarrow>
                  sorted_wrt (\<lambda>x y. \<not> greater F (Score y) (Score x)) results"
    by (simp add: by_score_def)
  have m': "mset results = mset (map (\<lambda>i. \<lparr>Node = i, Score = cosineSimilarity F q (Embedding (nodes t ! i))\<rparr>)
                                      (filter (\<lambda>i. Embedding (nodes t ! i) \<noteq> []) [0..<length (nodes t)]))"
    using m by (simp only: Search_scan_eq)
  have o': "out = (if 0 < limit then take (nat limit) results else results)"
    using o by (simp only: limit_results_eq)
  from m' st o' show "\<exists>results.
               mset results = mset (map (\<lambda>i. \<lparr>Node = i, Score = cosineSimilarity F q (Embedding (nodes t ! i))\<rparr>)
                                      (filter (\<lambda>i. Embedding (nodes t ! i) \<noteq> []) [0..<length (nodes t)]))
             \<and> (transitive_ordering (by_score F) (set results) \<longrightarrow>
                  sorted_wrt (\<lambda>x y. \<not> greater F (Score y) (Score x)) results)
             \<and> out = (if 0 < limit then take (nat limit) results else results)"
    by (intro exI [of _ results] conjI)
qed

theorem Search_ranked_witness:
  "Search exact_reals (NewMemoryTree search_nodes) [1, 0, 0] 2
     [\<lparr>Node = 0, Score = 1\<rparr>, \<lparr>Node = 3, Score = 3 / 5\<rparr>]
   \<and> (\<exists>results.
         mset results = mset [\<lparr>Node = 0, Score = 1\<rparr>, \<lparr>Node = 1, Score = 0\<rparr>, \<lparr>Node = 3, Score = 3 / 5 :: real\<rparr>]
       \<and> sorted_wrt (\<lambda>x y. \<not> Score y > Score x) results
       \<and> [\<lparr>Node = 0, Score = 1\<rparr>, \<lparr>Node = 3, Score = 3 / 5\<rparr>] = take 2 results)"
proof -
  have e: "map (\<lambda>i. \<lparr>Node = i, Score = cosineSimilarity exact_reals [1, 0, 0]
                        (Embedding (nodes (NewMemoryTree search_nodes) ! i))\<rparr>)
             (filter (\<lambda>i. Embedding (nodes (NewMemoryTree search_nodes) ! i) \<noteq> [])
                [0..<length (nodes (NewMemoryTree search_nodes))])
           = [\<lparr>Node = 0, Score = 1\<rparr>, \<lparr>Node = 1, Score = 0\<rparr>, \<lparr>Node = 3, Score = 3 / 5\<rparr>]"
    using scan_search_nodes by (simp only: Search_scan_eq)
  have g: "greater exact_reals = (\<lambda>x y. x > y)"
    by (simp add: exact_reals_def)
  from Search_ranked [of exact_reals "NewMemoryTree search_nodes" "[1, 0, 0]" 2] Search_search_nodes
  show ?thesis
    by (simp add: e g transitive_ordering_exact_reals)
qed

text \<open>
  Claim C3 as stated fails. Twelve nodes share one embedding and a thirteenth, the
  last of the collection, matches the query best: \<open>Search\<close> returns the best node
  first, then the seventh, and the second last, whereas the stable ranking keeps the
  twelve in collection order, and that ranking is not what \<open>Search\<close> returns. And when
  a score is NaN the result need not be sorted: of three nodes scoring 0, NaN and 1,
  in this order, \<open>Search\<close> returns the three in this order, the best last.
\<close>

theorem Search_not_stable:
  "Search exact_reals (NewMemoryTree tied_nodes) [1, 0] 0
     (\<lparr>Node = 12, Score = 1\<rparr>
      # map (\<lambda>i. \<lparr>Node = i, Score = 0\<rparr>) [6, 2, 3, 4, 5, 0, 7, 8, 9, 10, 11, 1])
   \<and> limit_results 0 (stable_sort (by_score exact_reals)
         (Search_scan exact_reals (NewMemoryTree tied_nodes) [1, 0]))
       = \<lparr>Node = 12, Score = 1\<rparr>
         # map (\<lambda>i. \<lparr>Node = i, Score = 0\<rparr>) [0, 1, 2, 3, 4, 5, 6, 7, 8, 9, 10, 11]
   \<and> \<not> Search exact_reals (NewMemoryTree tied_nodes) [1, 0] 0
         (\<lparr>Node = 12, Score = 1\<rparr>
          # map (\<lambda>i. \<lparr>Node = i, Score = 0\<rparr>) [0, 1, 2, 3, 4, 5, 6, 7, 8, 9, 10, 11])
   \<and> Search nan_reals (NewMemoryTree nan_nodes) [Num 1, Num 0] 0
       [\<lparr>Node = 0, Score = Num 0\<rparr>, \<lparr>Node = 1, Score = NaN\<rparr>, \<lparr>Node = 2, Score = Num 1\<rparr>]
   \<and> greater nan_reals (Num 1) (Num 0)"
proof (intro conjI)
  show "Search exact_reals (NewMemoryTree tied_nodes) [1, 0] 0
     (\<lparr>Node = 12, Score = 1\<rparr>
      # map (\<lambda>i. \<lparr>Node = i, Score = 0\<rparr>) [6, 2, 3, 4, 5, 0, 7, 8, 9, 10, 11, 1])"
    by (simp add: Search_iff sort_tied_nodes limit_results_def)
  show "limit_results 0 (stable_sort (by_score exact_reals)
         (Search_scan exact_reals (NewMemoryTree tied_nodes) [1, 0]))
       = \<lparr>Node = 12, Score = 1\<rparr>
         # map (\<lambda>i. \<lparr>Node = i, Score = 0\<rparr>) [0, 1, 2, 3, 4, 5, 6, 7, 8, 9, 10, 11]"
    by (simp add: stable_tied_nodes limit_results_def)
  show "\<not> Search exact_reals (NewMemoryTree tied_nodes) [1, 0] 0
         (\<lparr>Node = 12, Score = 1\<rparr>
          # map (\<lambda>i. \<lparr>Node = i, Score = 0\<rparr>) [0, 1, 2, 3, 4, 5, 6, 7, 8, 9, 10, 11])"
    by (simp add: Search_iff sort_tied_nodes limit_results_def)
  show "Search nan_reals (NewMemoryTree nan_nodes) [Num 1, Num 0] 0
       [\<lparr>Node = 0, Score = Num 0\<rparr>, \<lparr>Node = 1, Score = NaN\<rparr>, \<lparr>Node = 2, Score = Num 1\<rparr>]"
    by (simp add: Search_iff sort_nan_nodes limit_results_def)
  show "greater nan_reals (Num 1) (Num 0)"
    by (simp add: nan_reals_def)
qed

subsection \<open>Encode and Decode\<close>

lemma length_MagicBytes: "length MagicBytes = 6"
  by (simp add: MagicBytes_def)

lemma Decode_magic:
  "length MagicBytes = 6 \<Longrightarrow> Decode ex (MagicBytes @ bs) =
     (case Decode_header ex bs of
        Inl err \<Rightarrow> Inl (Errorf ''failed to decode header'' (External err))
      | Inr (header, unread) \<Rightarrow>
          let payloadBytes = drop (nat (6 + (int (length bs) - int (length unread)))) (MagicBytes @ bs)
          in if Integrity (Security header) \<noteq> []
                \<and> EncodeToString (Sum256 ex payloadBytes) \<noteq> Integrity (Security header)
             then Inl ErrIntegrityFailed
             else case Decode_nodes ex payloadBytes of
               Inl err \<Rightarrow> Inl (Errorf ''failed to decode nodes'' (External err))
             | Inr (ns, _) \<Rightarrow> Inr \<lparr>EngramFile.Header = header, Nodes = ns\<rparr>)"
  by (simp add: Decode_def Let_def split: sum.splits prod.splits)

lemma Decode_framed:
  assumes "Decode_header ex (hb @ payload) = Inr (h, payload)"
  shows "Decode ex (MagicBytes @ hb @ payload) =
     (if Integrity (Security h) \<noteq> []
         \<and> EncodeToString (Sum256 ex payload) \<noteq> Integrity (Security h)
      then Inl ErrIntegrityFailed
      else case Decode_nodes ex payload of
        Inl err \<Rightarrow> Inl (Errorf ''failed to decode nodes'' (External err))
      | Inr (ns, _) \<Rightarrow> Inr \<lparr>EngramFile.Header = h, Nodes = ns\<rparr>)"
proof -
  have "nat (6 + (int (length (hb @ payload)) - int (length payload))) = length MagicBytes + length hb"
    by (simp add: length_MagicBytes)
  then have "drop (nat (6 + (int (length (hb @ payload)) - int (length payload)))) (MagicBytes @ hb @ payload) = payload"
    by simp
  then show ?thesis
    using assms by (simp add: Decode_magic [OF length_MagicBytes] Let_def)
qed

lemma Encode_eq:
  assumes "Marshal_nodes ex (Nodes f) = Inr pb"
  shows "Encode ex now f =
     (case Marshal_header ex
        ((EngramFile.Header f)\<lparr>
           NodeCount := int (length (Nodes f)),
           Modified := now,
           Created := (if Created (EngramFile.Header f) = [] then now else Created (EngramFile.Header f)),
           EngramHeader.Version := (if EngramHeader.Version (EngramFile.Header f) = [] then ''1.0''
                       else EngramHeader.Version (EngramFile.Header f)),
           Security := (Security (EngramFile.Header f))\<lparr>Integrity := EncodeToString (Sum256 ex pb)\<rparr>\<rparr>) of
        Inl err \<Rightarrow> Inl (Errorf ''failed to encode header'' (External err))
      | Inr hb \<Rightarrow> Inr (MagicBytes @ hb @ pb))"
proof -
  obtain v c m n sc se md where h: "EngramFile.Header f = \<lparr>EngramHeader.Version = v, Created = c, Modified = m,
      NodeCount = n, Schema = sc, Security = se, Metadata = md\<rparr>"
    by (cases "EngramFile.Header f") auto
  show ?thesis
    using assms by (simp add: Encode_def Let_def h)
qed

lemma errors_Is_Decode:
  "Decode ex data = Inl err \<Longrightarrow> errors_Is err ErrIntegrityFailed \<longleftrightarrow> err = ErrIntegrityFailed"
  by (auto simp: Decode_def Let_def split: sum.splits prod.splits if_splits)

lemma unat_hi_nibble: "unat (drop_bit 4 (v :: byte)) < 16"
proof -
  have "unat v < 256" using unsigned_less [of v] by simp
  moreover have "unat (drop_bit 4 v) = unat v div 16"
    by (simp add: drop_bit_eq_div unat_div_distrib)
  ultimately show ?thesis by simp
qed

lemma unat_lo_nibble: "unat ((v :: byte) AND 0x0f) < 16"
proof -
  have "v AND 0x0f = take_bit 4 v"
    by (simp only: take_bit_eq_mask mask_numeral mask_Suc_0 mask_eq_exp_minus_1) simp
  moreover have "unat (take_bit 4 v) = unat v mod 16"
    by (simp add: take_bit_eq_mod unat_mod_distrib)
  ultimately show ?thesis by simp
qed

lemma hextable_nth: "i < 16 \<Longrightarrow> hextable ! i \<in> set hextable"
  by (rule nth_mem) (simp add: hextable_def)

lemma set_EncodeToString: "set (EncodeToString bs) \<subseteq> set hextable"
  by (auto simp: EncodeToString_def hextable_nth unat_hi_nibble unat_lo_nibble)

lemma payload_eq:
  "drop (nat (6 + (int (length data) - 6 - int (length unread)))) data
     = drop (length data - length unread) data"
proof -
  have "nat (6 + (int (length data) - 6 - int (length unread))) = length data - length unread"
    by simp
  then show ?thesis by simp
qed

lemma Decode_unfold:
  assumes "\<not> (length data < 6 \<or> take 6 data \<noteq> MagicBytes)"
    and "Decode_header ex (drop 6 data) = Inr (h, unread)"
  shows "Decode ex data =
     (if Integrity (Security h) \<noteq> []
         \<and> EncodeToString (Sum256 ex (drop (length data - length unread) data)) \<noteq> Integrity (Security h)
      then Inl ErrIntegrityFailed
      else case Decode_nodes ex (drop (length data - length unread) data) of
             Inl err \<Rightarrow> Inl (Errorf ''failed to decode nodes'' (External err))
           | Inr (ns, _) \<Rightarrow> Inr \<lparr>EngramFile.Header = h, Nodes = ns\<rparr>)"
  using assms unfolding Decode_def Let_def payload_eq by simp

lemma magic_prefix: "\<not> (length (MagicBytes @ bs) < 6 \<or> take 6 (MagicBytes @ bs) \<noteq> MagicBytes)"
  by (simp add: MagicBytes_def)

lemma drop_magic: "drop 6 (MagicBytes @ bs) = bs"
  by (simp add: MagicBytes_def)

lemma payload_of_framed: "payload = drop (length (MagicBytes @ hb @ payload) - length payload) (MagicBytes @ hb @ payload)"
  by simp

lemma Decode_empty: "Decode ex [] = Inl ErrInvalidMagic"
  by (simp add: Decode_def)

subsection \<open>The sample file under the reference serializer\<close>

lemmas enc_simps = sample_ex_def sample_Marshal_nodes_def sample_Marshal_header_def mp_node_def mp_struct_def
  mp_str_def mp_array_def mp_strs_def omit_str_def omit_strs_def byte_of_char_def sample_nodes_def sample_file_def
  zero_MemoryNode_def zero_EngramHeader_def mp_uint_def mp_security_def sample_now_def be_bytes_def upt_rec
  List.map_filter_def zero_SecurityInfo_def

lemma dec_fields_numeral:
  "dec_fields f (numeral k) v bs =
     (case dec_str bs of
        Inl e \<Rightarrow> Inl (mid e)
      | Inr (key, rest) \<Rightarrow>
          (case f key v rest of
             Inl e \<Rightarrow> Inl (mid e)
           | Inr (v', rest') \<Rightarrow> dec_fields f (pred_numeral k) v' rest'))"
  by (simp add: numeral_eq_Suc)

lemma dec_list_numeral:
  "dec_list d (numeral k) bs =
     (case d bs of
        Inl e \<Rightarrow> Inl (mid e)
      | Inr (x, rest) \<Rightarrow>
          (case dec_list d (pred_numeral k) rest of Inl e \<Rightarrow> Inl e | Inr (xs, rest') \<Rightarrow> Inr (x # xs, rest')))"
  by (simp add: numeral_eq_Suc)

lemmas dec_simps = sample_ex_def sample_Decode_header_def sample_Decode_nodes_def sample_Decode_node_def
  dec_struct_def dec_map_len_def dec_array_len_def dec_str_def dec_uint_def dec_strs_def dec_len_def
  take_bytes_def set_from_def header_field_def security_field_def node_field_def char_of_byte_def be_nat_def
  dec_fields_numeral dec_list_numeral mid_def char_of_def bit_Suc_0_iff

lemma Marshal_nodes_sample: "Marshal_nodes sample_ex sample_nodes = Inr sample_payload"
  by (simp add: enc_simps sample_payload_def)

lemma digest_sample: "EncodeToString (Sum256 sample_ex sample_payload) = sample_digest"
  by (simp add: sample_ex_def sample_Sum256_def upt_rec EncodeToString_def hextable_def
      sample_payload_def sample_digest_def)

lemma Marshal_header_sample: "Marshal_header sample_ex sample_header' = Inr sample_header_bytes"
  by (simp add: enc_simps sample_header'_def sample_digest_def sample_header_bytes_def)

lemma Decode_header_sample:
  "Decode_header sample_ex (sample_header_bytes @ sample_payload) = Inr (sample_header', sample_payload)"
  by (simp add: dec_simps sample_header_bytes_def sample_header'_def sample_digest_def sample_now_def
      zero_EngramHeader_def zero_SecurityInfo_def)

lemma Decode_nodes_sample:
  "Decode_nodes sample_ex sample_payload = Inr (sample_nodes, [])"
  by (simp add: dec_simps sample_payload_def sample_nodes_def zero_MemoryNode_def)

lemma Encode_sample:
  "Encode sample_ex sample_now sample_file = Inr (MagicBytes @ sample_header_bytes @ sample_payload)"
proof -
  have n: "Marshal_nodes sample_ex (Nodes sample_file) = Inr sample_payload"
    by (simp add: sample_file_def Marshal_nodes_sample)
  have h: "(EngramFile.Header sample_file)\<lparr>
           NodeCount := int (length (Nodes sample_file)),
           Modified := sample_now,
           Created := (if Created (EngramFile.Header sample_file) = [] then sample_now
                       else Created (EngramFile.Header sample_file)),
           EngramHeader.Version := (if EngramHeader.Version (EngramFile.Header sample_file) = [] then ''1.0''
                       else EngramHeader.Version (EngramFile.Header sample_file)),
           Security := (Security (EngramFile.Header sample_file))\<lparr>Integrity :=
              EncodeToString (Sum256 sample_ex sample_payload)\<rparr>\<rparr> = sample_header'"
    by (simp add: digest_sample sample_file_def sample_header'_def zero_EngramHeader_def
        zero_SecurityInfo_def sample_nodes_def)
  show ?thesis
    by (simp only: Encode_eq [OF n] h Marshal_header_sample sum.case)
qed

lemma Decode_sample:
  "Decode sample_ex (MagicBytes @ sample_header_bytes @ sample_payload)
     = Inr \<lparr>EngramFile.Header = sample_header', Nodes = sample_nodes\<rparr>"
  by (simp add: Decode_framed [OF Decode_header_sample] digest_sample Decode_nodes_sample
      sample_header'_def)

lemma Decode_header_upper:
  "Decode_header sample_ex (upper_header_bytes @ sample_payload) = Inr (upper_header, sample_payload)"
  by (simp add: dec_simps upper_header_bytes_def upper_header_def sample_header'_def upper_digest_def
      sample_now_def zero_EngramHeader_def zero_SecurityInfo_def)

lemma EqualFold_upper: "EqualFold upper_digest sample_digest"
  by (simp add: EqualFold_def upper_digest_def sample_digest_def ascii_lower_def less_eq_char_def
      char_of_def bit_Suc_0_iff)

lemma Decode_header_corrupt:
  "Decode_header sample_ex (sample_header_bytes @ corrupt_payload) = Inr (sample_header', corrupt_payload)"
  by (simp add: dec_simps sample_header_bytes_def sample_header'_def sample_digest_def sample_now_def
      zero_EngramHeader_def zero_SecurityInfo_def)

lemma digest_corrupt: "EncodeToString (Sum256 sample_ex corrupt_payload) \<noteq> sample_digest"
  by (simp add: sample_ex_def sample_Sum256_def upt_rec EncodeToString_def hextable_def
      sample_payload_def sample_digest_def corrupt_payload_def)

lemma integrity_sample_header: "Integrity (Security sample_header') = sample_digest"
  by (simp add: sample_header'_def)

lemma sample_digest_nonempty: "sample_digest \<noteq> []"
  by (simp add: sample_digest_def)

lemma Decode_corrupt:
  "Decode sample_ex (MagicBytes @ sample_header_bytes @ corrupt_payload) = Inl ErrIntegrityFailed"
  by (simp add: Decode_framed [OF Decode_header_corrupt] digest_corrupt integrity_sample_header
      sample_digest_nonempty)

lemma Decode_upper:
  "Decode sample_ex (MagicBytes @ upper_header_bytes @ sample_payload) = (Inl ErrIntegrityFailed :: error + real EngramFile)"
  by (simp add: Decode_framed [OF Decode_header_upper] digest_sample)
     (simp add: upper_header_def upper_digest_def sample_digest_def)


subsection \<open>The codec claims\<close>



text \<open>
  Claim C2, as amended. For an input that passes the magic check and whose header
  decodes with a non-empty stored digest, \<open>Decode\<close> compares the lower-case hex SHA-256
  of the payload bytes with the stored digest by exact string equality: on any
  difference it fails with \<open>ErrIntegrityFailed\<close> whatever the node decoder would do
  (the payload is not decoded), on equality it goes on to decode the payload, and a
  stored digest with any character that is not a lower-case hex digit is rejected.
\<close>

theorem Decode_integrity_exact:
  assumes "\<not> (length data < 6 \<or> take 6 data \<noteq> MagicBytes)"
    and "Decode_header ex (drop 6 data) = Inr (h, unread)"
    and "Integrity (Security h) \<noteq> []"
    and "payload = drop (length data - length unread) data"
  shows "(EncodeToString (Sum256 ex payload) \<noteq> Integrity (Security h)
            \<longrightarrow> (\<forall>d. Decode (ex\<lparr>Decode_nodes := d\<rparr>) data = Inl ErrIntegrityFailed))
       \<and> (EncodeToString (Sum256 ex payload) = Integrity (Security h)
            \<longrightarrow> Decode ex data =
                 (case Decode_nodes ex payload of
                    Inl err \<Rightarrow> Inl (Errorf ''failed to decode nodes'' (External err))
                  | Inr (ns, _) \<Rightarrow> Inr \<lparr>EngramFile.Header = h, Nodes = ns\<rparr>))
       \<and> (\<not> set (Integrity (Security h)) \<subseteq> set hextable
            \<longrightarrow> Decode ex data = Inl ErrIntegrityFailed)"
proof (intro conjI impI allI)
  fix d
  assume ne: "EncodeToString (Sum256 ex payload) \<noteq> Integrity (Security h)"
  have "Decode_header (ex\<lparr>Decode_nodes := d\<rparr>) (drop 6 data) = Inr (h, unread)"
    using assms(2) by simp
  from Decode_unfold [OF assms(1) this] ne assms(3,4)
  show "Decode (ex\<lparr>Decode_nodes := d\<rparr>) data = Inl ErrIntegrityFailed"
    by simp
next
  assume "EncodeToString (Sum256 ex payload) = Integrity (Security h)"
  with Decode_unfold [OF assms(1,2)] assms(4)
  show "Decode ex data =
                 (case Decode_nodes ex payload of
                    Inl err \<Rightarrow> Inl (Errorf ''failed to decode nodes'' (External err))
                  | Inr (ns, _) \<Rightarrow> Inr \<lparr>EngramFile.Header = h, Nodes = ns\<rparr>)"
    by simp
next
  assume "\<not> set (Integrity (Security h)) \<subseteq> set hextable"
  then have "EncodeToString (Sum256 ex payload) \<noteq> Integrity (Security h)"
    using set_EncodeToString [of "Sum256 ex payload"] by auto
  with Decode_unfold [OF assms(1,2)] assms(3,4)
  show "Decode ex data = Inl ErrIntegrityFailed"
    by simp
qed

theorem Decode_integrity_exact_witness:
  "Decode (sample_ex\<lparr>Decode_nodes := \<lambda>bs. Inr (sample_nodes, [])\<rparr>)
       (MagicBytes @ sample_header_bytes @ corrupt_payload) = Inl ErrIntegrityFailed
   \<and> Decode sample_ex (MagicBytes @ sample_header_bytes @ sample_payload)
       = Inr \<lparr>EngramFile.Header = sample_header', Nodes = sample_nodes\<rparr>
   \<and> Decode sample_ex (MagicBytes @ upper_header_bytes @ sample_payload)
       = (Inl ErrIntegrityFailed :: error + real EngramFile)"
proof -
  have c: "Decode_header sample_ex (drop 6 (MagicBytes @ sample_header_bytes @ corrupt_payload))
             = Inr (sample_header', corrupt_payload)"
    by (simp only: drop_magic Decode_header_corrupt)
  have g: "Decode_header sample_ex (drop 6 (MagicBytes @ sample_header_bytes @ sample_payload))
             = Inr (sample_header', sample_payload)"
    by (simp only: drop_magic Decode_header_sample)
  have u: "Decode_header sample_ex (drop 6 (MagicBytes @ upper_header_bytes @ sample_payload))
             = Inr (upper_header, sample_payload)"
    by (simp only: drop_magic Decode_header_upper)
  have n: "Integrity (Security sample_header') \<noteq> []"
    by (simp add: integrity_sample_header sample_digest_nonempty)
  have nu: "Integrity (Security upper_header) \<noteq> []"
    by (simp add: upper_header_def upper_digest_def)
  have up: "\<not> set (Integrity (Security upper_header)) \<subseteq> set hextable"
    by (simp add: upper_header_def upper_digest_def hextable_def)
  have dc: "EncodeToString (Sum256 sample_ex corrupt_payload) \<noteq> Integrity (Security sample_header')"
    by (simp add: integrity_sample_header digest_corrupt)
  have ds: "EncodeToString (Sum256 sample_ex sample_payload) = Integrity (Security sample_header')"
    by (simp add: integrity_sample_header digest_sample)
  from Decode_integrity_exact [OF magic_prefix c n payload_of_framed] dc
  have 1: "Decode (sample_ex\<lparr>Decode_nodes := \<lambda>bs. Inr (sample_nodes, [])\<rparr>)
       (MagicBytes @ sample_header_bytes @ corrupt_payload) = Inl ErrIntegrityFailed"
    by blast
  from Decode_integrity_exact [OF magic_prefix g n payload_of_framed]
  have "EncodeToString (Sum256 sample_ex sample_payload) = Integrity (Security sample_header')
          \<longrightarrow> Decode sample_ex (MagicBytes @ sample_header_bytes @ sample_payload) =
                 (case Decode_nodes sample_ex sample_payload of
                    Inl err \<Rightarrow> Inl (Errorf ''failed to decode nodes'' (External err))
                  | Inr (ns, _) \<Rightarrow> Inr \<lparr>EngramFile.Header = sample_header', Nodes = ns\<rparr>)"
    by blast
  with ds have "Decode sample_ex (MagicBytes @ sample_header_bytes @ sample_payload) =
                 (case Decode_nodes sample_ex sample_payload of
                    Inl err \<Rightarrow> Inl (Errorf ''failed to decode nodes'' (External err))
                  | Inr (ns, _) \<Rightarrow> Inr \<lparr>EngramFile.Header = sample_header', Nodes = ns\<rparr>)"
    by blast
  then have 2: "Decode sample_ex (MagicBytes @ sample_header_bytes @ sample_payload)
       = Inr \<lparr>EngramFile.Header = sample_header', Nodes = sample_nodes\<rparr>"
    by (simp add: Decode_nodes_sample)
  from Decode_integrity_exact [OF magic_prefix u nu payload_of_framed] up
  have 3: "Decode sample_ex (MagicBytes @ upper_header_bytes @ sample_payload)
       = (Inl ErrIntegrityFailed :: error + real EngramFile)"
    by blast
  from 1 2 3 show ?thesis by simp
qed

text \<open>
  Claim C2 as stated fails: the stored digest below equals the payload's digest up to
  the case of the hex digits, and \<open>Decode\<close> rejects the input.
\<close>

theorem Decode_rejects_uppercase_digest:
  "Decode_header sample_ex (upper_header_bytes @ sample_payload)
       = Inr (upper_header, sample_payload)
   \<and> Integrity (Security upper_header) \<noteq> []
   \<and> EqualFold (Integrity (Security upper_header))
        (EncodeToString (Sum256 sample_ex sample_payload))
   \<and> Decode sample_ex (MagicBytes @ upper_header_bytes @ sample_payload)
       = (Inl ErrIntegrityFailed :: error + real EngramFile)"
  by (simp add: Decode_header_upper Decode_upper digest_sample)
     (simp add: upper_header_def EqualFold_upper, simp add: upper_digest_def)

text \<open>
  Claim C4. \<open>Decode\<close> fails with \<open>ErrInvalidMagic\<close> exactly when the input has fewer
  than 6 bytes or its first 6 bytes are not the magic sequence; and whatever \<open>Encode\<close>
  returns begins with the magic sequence.
\<close>

theorem Decode_InvalidMagic_iff:
  "(Decode ex data = Inl ErrInvalidMagic \<longleftrightarrow> length data < 6 \<or> take 6 data \<noteq> MagicBytes)
   \<and> (Encode ex now f = Inr out \<longrightarrow> take 6 out = MagicBytes)"
proof
  show "Decode ex data = Inl ErrInvalidMagic \<longleftrightarrow> length data < 6 \<or> take 6 data \<noteq> MagicBytes"
    by (auto simp: Decode_def Let_def split: sum.splits prod.splits)
  show "Encode ex now f = Inr out \<longrightarrow> take 6 out = MagicBytes"
    by (auto simp: Encode_def Let_def length_MagicBytes split: sum.splits)
qed

theorem Decode_InvalidMagic_iff_witness:
  "Decode sample_ex [0x45, 0x4E, 0x47] = (Inl ErrInvalidMagic :: error + real EngramFile)
   \<and> Decode sample_ex [0x45, 0x4E, 0x47, 0x52, 0x41, 0x4E, 0x80] = (Inl ErrInvalidMagic :: error + real EngramFile)
   \<and> take 6 (MagicBytes @ sample_header_bytes @ sample_payload) = MagicBytes"
  using Decode_InvalidMagic_iff [of sample_ex "[0x45, 0x4E, 0x47]" sample_now sample_file
          "MagicBytes @ sample_header_bytes @ sample_payload"]
        Decode_InvalidMagic_iff [of sample_ex "[0x45, 0x4E, 0x47, 0x52, 0x41, 0x4E, 0x80]"
          sample_now sample_file "MagicBytes @ sample_header_bytes @ sample_payload"]
        Encode_sample
  by (simp add: MagicBytes_def)



text \<open>
  Claim C7. \<open>VerifyIntegrity\<close> is a full decode of the file's bytes with the outcome
  remapped: a decode that fails with \<open>ErrIntegrityFailed\<close> gives \<open>(false, nil)\<close>, a read
  error or any other decode error is returned as the error, and a successful decode
  gives \<open>(true, nil)\<close>.
\<close>

theorem VerifyIntegrity_remap:
  "VerifyIntegrity ex fs path =
     (case fs path of
        Inl e \<Rightarrow> (False, Some (Errorf ''failed to read file'' (External e)))
      | Inr data \<Rightarrow>
          (case Decode ex data of
             Inl err \<Rightarrow> if err = ErrIntegrityFailed then (False, None) else (False, Some err)
           | Inr file \<Rightarrow> (True, None)))"
  by (auto simp: VerifyIntegrity_def ReadFile_def errors_Is_Decode split: sum.splits)

theorem VerifyIntegrity_remap_witness:
  "VerifyIntegrity sample_ex sample_fs ''good.engram'' = (True, None)
   \<and> VerifyIntegrity sample_ex sample_fs ''corrupt.engram'' = (False, None)
   \<and> VerifyIntegrity sample_ex sample_fs ''other.txt'' = (False, Some ErrInvalidMagic)
   \<and> VerifyIntegrity sample_ex sample_fs ''missing''
       = (False, Some (Errorf ''failed to read file'' (External (LibError ''no such file''))))"
  using VerifyIntegrity_remap [of sample_ex sample_fs "''good.engram''"]
        VerifyIntegrity_remap [of sample_ex sample_fs "''corrupt.engram''"]
        VerifyIntegrity_remap [of sample_ex sample_fs "''other.txt''"]
        VerifyIntegrity_remap [of sample_ex sample_fs "''missing''"]
  by (simp add: sample_fs_def Decode_sample Decode_corrupt Decode_empty)

lemma Next_no_more:
  "StreamReader.count sr \<le> StreamReader.index sr \<Longrightarrow> Next ex sr = Inr (None, sr)"
  "Decode_node ex (decoder sr) = Inl EOF \<Longrightarrow> Next ex sr = Inr (None, sr)"
  by (simp_all add: Next_def)

lemma Next_record:
  "StreamReader.index sr < StreamReader.count sr \<Longrightarrow>
   Decode_node ex (decoder sr) = Inr (node, unread) \<Longrightarrow>
   Next ex sr = Inr (Some node, sr\<lparr>decoder := unread, index := StreamReader.index sr + 1\<rparr>)"
  by (simp add: Next_def)

lemma streaming_ignores_digest:
  "NewStreamReader (ex\<lparr>Sum256 := d\<rparr>) r = NewStreamReader ex r"
  "Next (ex\<lparr>Sum256 := d\<rparr>) sr = Next ex sr"
  by (simp_all add: NewStreamReader_def Next_def)

text \<open>
  Claim C5, at a file of two nodes. \<open>Encode\<close> writes the nodes as one array, so the
  payload begins with the array header; \<open>Decode\<close> returns both nodes, while the first
  \<open>Next\<close> of a stream reader over the same bytes asks the decoder for a single node at
  the array header and fails, and so does the consumer's loop.
\<close>

theorem StreamReader_fails_on_encoded_file:
  "Encode sample_ex sample_now sample_file = Inr (MagicBytes @ sample_header_bytes @ sample_payload)
   \<and> Decode sample_ex (MagicBytes @ sample_header_bytes @ sample_payload)
       = Inr \<lparr>EngramFile.Header = sample_header', Nodes = sample_nodes\<rparr>
   \<and> NewStreamReader sample_ex (MagicBytes @ sample_header_bytes @ sample_payload)
       = Inr \<lparr>decoder = sample_payload, Header = sample_header', count = 2, index = 0\<rparr>
   \<and> Next sample_ex
         \<lparr>decoder = sample_payload, Header = sample_header', count = 2, index = 0\<rparr>
       = Inl (Errorf ''failed to decode node'' (External (LibError ''invalid code decoding map length'')))
   \<and> ReadAll sample_ex
         \<lparr>decoder = sample_payload, Header = sample_header', count = 2, index = 0\<rparr>
       = Inl (Errorf ''failed to decode node'' (External (LibError ''invalid code decoding map length'')))"
proof -
  have nx: "Next sample_ex
         \<lparr>decoder = sample_payload, Header = sample_header', count = 2, index = 0\<rparr>
       = Inl (Errorf ''failed to decode node'' (External (LibError ''invalid code decoding map length'')))"
    by (simp add: Next_def sample_ex_def sample_Decode_node_def dec_struct_def dec_map_len_def
        sample_payload_def)
  have ns: "NewStreamReader sample_ex (MagicBytes @ sample_header_bytes @ sample_payload)
       = Inr \<lparr>decoder = sample_payload, Header = sample_header', count = 2, index = 0\<rparr>"
    by (simp add: NewStreamReader_def length_MagicBytes Decode_header_sample)
       (simp add: sample_header'_def)
  show ?thesis
    by (subst ReadAll.simps) (simp add: nx ns Encode_sample Decode_sample)
qed

end
